theory Spec2Isabelle
  imports Complex_Main
begin

section \<open>The annotation extractor of \<open>map_loader.py\<close>\<close>

text \<open>
  The module reads an SVG document with \<open>xml.etree.ElementTree\<close> and collects named
  points, poses, regions and doors. The embedding starts from the parsed tree. What the
  module takes from libraries is a parameter of the model, collected in the record
  \<open>ext\<close>: Python's \<open>float\<close> on a string, \<open>round(x, 3)\<close>, the comparison of a float
  with an integer, and \<open>svgpathtools.parse_path\<close>. Coordinates are values of a type
  \<open>'f\<close> with an addition and a zero, so every theorem holds for whatever floating-point
  arithmetic interprets them. An uncaught exception is the \<open>Inl\<close> of a sum, a call of
  \<open>warn\<close> appends to a list of warnings.
\<close>

subsection \<open>Exceptions and warnings\<close>

datatype error =
    AttributeError      \<comment> \<open>an attribute of \<open>None\<close> is read\<close>
  | KeyError string     \<comment> \<open>a dictionary has no such key\<close>
  | ValueError          \<comment> \<open>\<open>float\<close> rejects the string, or an unpacking has the wrong length\<close>
  | RuntimeError        \<comment> \<open>the one exception the module raises and catches itself\<close>
  | LibraryError        \<comment> \<open>any other exception of \<open>parse_path\<close>\<close>

definition bind_err :: "error + 'a \<Rightarrow> ('a \<Rightarrow> error + 'b) \<Rightarrow> error + 'b" where
  "bind_err m f = (case m of Inl e \<Rightarrow> Inl e | Inr v \<Rightarrow> f v)"

text \<open>A loop whose body updates accumulators and may raise: the first exception ends it.\<close>

fun for_each :: "('a \<Rightarrow> 's \<Rightarrow> error + 's) \<Rightarrow> 'a list \<Rightarrow> 's \<Rightarrow> error + 's" where
  "for_each body [] s = Inr s"
| "for_each body (x # xs) s = (case body x s of Inl e \<Rightarrow> Inl e | Inr s' \<Rightarrow> for_each body xs s')"

text \<open>
  One constructor for each message of the consistency check and for each call of
  \<open>warn\<close> in the extractor; the arguments are the values the message is formatted from
  (a name is \<open>text.text\<close>, which may be \<open>None\<close>).
\<close>

datatype 'f problem =
    ViewboxProblem string string      \<comment> \<open>"SVG viewbox is {} but should be {}"\<close>
  | OriginProblem 'f 'f               \<comment> \<open>"Image origin is ({}, {}) not (0, 0)"\<close>
  | DimensionProblem 'f 'f nat nat    \<comment> \<open>"SVG or image dimensions are {}x{}, but YAML says ..."\<close>

datatype 'f warning =
    PointGroupComplexTransform "string option" string
  | DoorGroupComplexTransform "string option" string
  | DoorGroupApproachCount "string option" nat
  | DoorGroupNoLine "string option"
  | PathGroupNoLabel
  | PathGroupComplexTransform "string option" string
  | PathUnparseable "string option"
  | PointComplexTransform "string option" string
  | PoseComplexTransform "string option" string
  | RegionComplexTransform "string option" string
  | SvgProblem "'f problem"

subsection \<open>Elements of the parsed tree\<close>

datatype element =
  Element (tag: string) (attrib: "(string \<times> string) list") (text_of: "string option")
    (children: "element list")

definition svg_el :: string where "svg_el = ''{http://www.w3.org/2000/svg}svg''"
definition image_el :: string where "image_el = ''{http://www.w3.org/2000/svg}image''"
definition text_el :: string where "text_el = ''{http://www.w3.org/2000/svg}text''"
definition circle_el :: string where "circle_el = ''{http://www.w3.org/2000/svg}circle''"
definition line_el :: string where "line_el = ''{http://www.w3.org/2000/svg}line''"
definition poly_el :: string where "poly_el = ''{http://www.w3.org/2000/svg}polygon''"
definition path_el :: string where "path_el = ''{http://www.w3.org/2000/svg}path''"
definition group_el :: string where "group_el = ''{http://www.w3.org/2000/svg}g''"
definition tspan_el :: string where "tspan_el = ''{http://www.w3.org/2000/svg}tspan''"

text \<open>\<open>element.attrib[key]\<close>: a \<open>KeyError\<close> when the key is absent.\<close>

definition attr :: "element \<Rightarrow> string \<Rightarrow> error + string" where
  "attr e k = (case map_of (attrib e) k of None \<Rightarrow> Inl (KeyError k) | Some v \<Rightarrow> Inr v)"

text \<open>
  \<open>Element.iter()\<close>: the element and its descendants in document order. Python keys its
  parent map by object identity; here an element's identity is its position, the list of
  child indices that leads to it from the root.
\<close>

function iter_from :: "nat list \<Rightarrow> element \<Rightarrow> (nat list \<times> element) list"
  and iter_children :: "nat list \<Rightarrow> nat \<Rightarrow> element list \<Rightarrow> (nat list \<times> element) list" where
  "iter_from pos (Element t a x cs) = (pos, Element t a x cs) # iter_children pos 0 cs"
| "iter_children pos i [] = []"
| "iter_children pos i (c # cs) = iter_from (pos @ [i]) c @ iter_children pos (Suc i) cs"
  by pat_completeness auto
termination
  by (relation "measure (\<lambda>x. case x of Inl (_, e) \<Rightarrow> size e | Inr (_, _, es) \<Rightarrow> size_list size es)")
    auto

text \<open>The step \<open>.//tag\<close> of a path: the descendants with that tag, the element itself excluded.\<close>

definition findall_desc :: "string \<Rightarrow> element \<Rightarrow> (nat list \<times> element) list" where
  "findall_desc tg e = filter (\<lambda>(p, c). tag c = tg) (tl (iter_from [] e))"

text \<open>\<open>e.find(".//tag")\<close>: the first such descendant, or \<open>None\<close>.\<close>

definition find_desc :: "string \<Rightarrow> element \<Rightarrow> element option" where
  "find_desc tg e = (case findall_desc tg e of [] \<Rightarrow> None | pc # _ \<Rightarrow> Some (snd pc))"

text \<open>\<open>e.findall(tag)\<close> and \<open>e.find(tag)\<close>: direct children only.\<close>

definition findall_child :: "string \<Rightarrow> element \<Rightarrow> element list" where
  "findall_child tg e = filter (\<lambda>c. tag c = tg) (children e)"

definition find_child :: "string \<Rightarrow> element \<Rightarrow> element option" where
  "find_child tg e = (case findall_child tg e of [] \<Rightarrow> None | c # _ \<Rightarrow> Some c)"

subsection \<open>The translation pattern\<close>

text \<open>
  \<open>re.match\<close> is a backtracking matcher: it takes the first way, in the order of its
  preferences, in which the whole pattern matches at the start of the string. A pattern is
  modelled by the list of its matches on a string in that order, each a pair of the text
  matched and the rest; a greedy quantifier tries the longest first, an alternation its
  left branch first.
\<close>

type_synonym matcher = "string \<Rightarrow> (string \<times> string) list"

definition lit :: "string \<Rightarrow> matcher" where
  "lit w s = (if take (length w) s = w then [(w, drop (length w) s)] else [])"

definition seq :: "matcher \<Rightarrow> matcher \<Rightarrow> matcher" where
  "seq m1 m2 s = concat (map (\<lambda>(c1, r1). map (\<lambda>(c2, r2). (c1 @ c2, r2)) (m2 r1)) (m1 s))"

definition alt :: "matcher \<Rightarrow> matcher \<Rightarrow> matcher" where
  "alt m1 m2 s = m1 s @ m2 s"

text \<open>\<open>[...]?\<close> on a character class: one character first, then none.\<close>

definition opt_class :: "(char \<Rightarrow> bool) \<Rightarrow> matcher" where
  "opt_class P s = (case s of c # r \<Rightarrow> (if P c then [([c], r)] else []) | [] \<Rightarrow> []) @ [([], s)]"

text \<open>\<open>[...]*\<close> and \<open>[...]+\<close> on a character class: every prefix of the longest run, longest first.\<close>

fun star_class :: "(char \<Rightarrow> bool) \<Rightarrow> matcher" where
  "star_class P [] = [([], [])]"
| "star_class P (c # r) =
     (if P c then map (\<lambda>(m, r'). (c # m, r')) (star_class P r) else []) @ [([], c # r)]"

definition plus_class :: "(char \<Rightarrow> bool) \<Rightarrow> matcher" where
  "plus_class P s = filter (\<lambda>(m, r). m \<noteq> []) (star_class P s)"

definition is_sign :: "char \<Rightarrow> bool" where
  "is_sign c = (c = CHR ''-'' \<or> c = CHR ''+'')"

text \<open>\<open>\d\<close>: among the code points below 256 the decimal digits are the ASCII ones.\<close>

definition is_digit :: "char \<Rightarrow> bool" where
  "is_digit c = (c \<in> set ''0123456789'')"

text \<open>\<open>float_pattern = r"[-+]?\d*\.\d+|[-+]?\d+"\<close>\<close>

definition float_pattern :: matcher where
  "float_pattern =
     alt (seq (opt_class is_sign) (seq (star_class is_digit) (seq (lit ''.'') (plus_class is_digit))))
         (seq (opt_class is_sign) (plus_class is_digit))"

text \<open>
  \<open>re.match(translation_pattern, s)\<close> with
  \<open>translation_pattern = r"^translate\(({})\,({})\)".format(float_pattern, float_pattern)\<close>:
  the two groups of the first match, or \<open>None\<close>. Nothing anchors the pattern at the end
  of the string. \<open>then_match\<close> continues each match of a part with the rest of the pattern.
\<close>

definition then_match :: "(string \<times> string) list \<Rightarrow> (string \<Rightarrow> string \<Rightarrow> 'a list) \<Rightarrow> 'a list" where
  "then_match ms continue = concat (map (\<lambda>(matched, rest). continue matched rest) ms)"

definition translation_matches :: "string \<Rightarrow> (string \<times> string) list" where
  "translation_matches s =
     then_match (lit ''translate('' s) (\<lambda>_ r0.
     then_match (float_pattern r0) (\<lambda>g1 r1.
     then_match (lit '','' r1) (\<lambda>_ r2.
     then_match (float_pattern r2) (\<lambda>g2 r3.
     then_match (lit '')'' r3) (\<lambda>_ _. [(g1, g2)])))))"

definition match_translation :: "string \<Rightarrow> (string \<times> string) option" where
  "match_translation s = (case translation_matches s of [] \<Rightarrow> None | m # _ \<Rightarrow> Some m)"

text \<open>
  A signed decimal, in the words of the specification: an optional sign, then digits, or
  digits (possibly none) followed by a point and at least one digit. It is defined without
  the matcher, to compare the pattern of the source with it.
\<close>

definition strip_sign :: "string \<Rightarrow> string" where
  "strip_sign s = (case s of c # r \<Rightarrow> if is_sign c then r else s | [] \<Rightarrow> s)"

definition signed_decimal :: "string \<Rightarrow> bool" where
  "signed_decimal s =
     (let u = strip_sign s; ip = takeWhile is_digit u; r = dropWhile is_digit u in
      (r = [] \<and> ip \<noteq> []) \<or> (r \<noteq> [] \<and> hd r = CHR ''.'' \<and> tl r \<noteq> [] \<and> list_all is_digit (tl r)))"

text \<open>The characters a match of \<open>float_pattern\<close> is made of.\<close>

definition float_char :: "char \<Rightarrow> bool" where
  "float_char c = (is_sign c \<or> is_digit c \<or> c = CHR ''.'')"

text \<open>A matcher is sound when each of its matches is a prefix of the input, made of the given characters.\<close>

definition sound :: "matcher \<Rightarrow> (char \<Rightarrow> bool) \<Rightarrow> bool" where
  "sound m P = (\<forall>s c r. (c, r) \<in> set (m s) \<longrightarrow> s = c @ r \<and> list_all P c)"

subsection \<open>Library functions the module calls\<close>

text \<open>
  A path of \<open>svgpathtools\<close> is a list of segments, of four classes; a point is a complex
  number, here the pair of its real and imaginary parts.
\<close>

datatype 'f segment =
    Line "'f \<times> 'f" "'f \<times> 'f"
  | QuadraticBezier "'f \<times> 'f" "'f \<times> 'f" "'f \<times> 'f"
  | CubicBezier "'f \<times> 'f" "'f \<times> 'f" "'f \<times> 'f" "'f \<times> 'f"
  | Arc "'f \<times> 'f" "'f \<times> 'f" 'f bool bool "'f \<times> 'f"

record 'f ext =
  py_float :: "string \<Rightarrow> 'f option"    \<comment> \<open>\<open>float(s)\<close>; \<open>None\<close> is its \<open>ValueError\<close>\<close>
  py_round3 :: "'f \<Rightarrow> 'f"                \<comment> \<open>\<open>round(x, 3)\<close>\<close>
  parse_path :: "string \<Rightarrow> error + 'f segment list"
  num_eq :: "'f \<Rightarrow> int \<Rightarrow> bool"         \<comment> \<open>\<open>==\<close> between a float and an integer\<close>

text \<open>\<open>float_s3\<close> is called on strings (attributes) and on floats (coordinates of a segment).\<close>

definition float_s3 :: "'f ext \<Rightarrow> string \<Rightarrow> error + 'f" where
  "float_s3 E string = (case py_float E string of None \<Rightarrow> Inl ValueError | Some x \<Rightarrow> Inr (py_round3 E x))"

definition float_s3_num :: "'f ext \<Rightarrow> 'f \<Rightarrow> 'f" where
  "float_s3_num E x = py_round3 E x"

subsection \<open>Transform and label of a group\<close>

definition get_group_transform :: "('f::{zero,plus}) ext \<Rightarrow> element \<Rightarrow> error + ('f \<times> 'f)" where
  "get_group_transform E grp =
     (case map_of (attrib grp) ''transform'' of
        None \<Rightarrow> Inr (0, 0)
      | Some t \<Rightarrow>
          (case match_translation t of
             None \<Rightarrow> Inl RuntimeError
           | Some (g1, g2) \<Rightarrow>
               bind_err (float_s3 E g1) (\<lambda>a. bind_err (float_s3 E g2) (\<lambda>b. Inr (a, b)))))"

definition get_text_from_group :: "element \<Rightarrow> element option" where
  "get_text_from_group grp =
     (case find_desc tspan_el grp of
        None \<Rightarrow> find_desc text_el grp
      | Some t \<Rightarrow> Some t)"


subsection \<open>Geometry of a path\<close>

text \<open>\<open>segment.start\<close> and \<open>segment.end\<close>, which every class of segment has.\<close>

fun seg_start :: "'f segment \<Rightarrow> 'f \<times> 'f" where
  "seg_start (Line s e) = s"
| "seg_start (QuadraticBezier s c e) = s"
| "seg_start (CubicBezier s c1 c2 e) = s"
| "seg_start (Arc s r rot la sw e) = s"

fun seg_end :: "'f segment \<Rightarrow> 'f \<times> 'f" where
  "seg_end (Line s e) = e"
| "seg_end (QuadraticBezier s c e) = e"
| "seg_end (CubicBezier s c1 c2 e) = e"
| "seg_end (Arc s r rot la sw e) = e"

fun is_line :: "'f segment \<Rightarrow> bool" where
  "is_line (Line s e) = True"
| "is_line path_part = False"

type_synonym 'f point = "'f \<times> 'f"

text \<open>The coordinates of a point of a path, rounded, then moved by the translation.\<close>

definition place :: "('f::{zero,plus}) ext \<Rightarrow> 'f point \<Rightarrow> 'f point \<Rightarrow> 'f point" where
  "place E translate p = (float_s3_num E (fst p) + fst translate, float_s3_num E (snd p) + snd translate)"

definition extract_line_from_path ::
  "('f::{zero,plus}) ext \<Rightarrow> element option \<Rightarrow> 'f point option \<Rightarrow> error + ('f point \<times> 'f point)" where
  "extract_line_from_path E path translate =
     (case path of
        None \<Rightarrow> Inl AttributeError
      | Some p \<Rightarrow>
          bind_err (attr p ''d'') (\<lambda>d.
          bind_err (parse_path E d) (\<lambda>path_geom.
            let translate = (case translate of None \<Rightarrow> (0, 0) | Some t \<Rightarrow> t) in
            if length path_geom = 1 \<and> is_line (path_geom ! 0)
            then (let line = path_geom ! 0 in
                  Inr (place E translate (seg_start line), place E translate (seg_end line)))
            else Inl RuntimeError)))"

subsection \<open>The four collections\<close>

type_synonym 'f named_point = "string option \<times> 'f point"
type_synonym 'f pose = "string option \<times> 'f point \<times> 'f point"
type_synonym 'f region = "string option \<times> 'f point list"
type_synonym 'f door = "string option \<times> ('f point \<times> 'f point) \<times> 'f point list"

text \<open>
  \<open>(float_s3(el.attrib[kx]) + translate[0], float_s3(el.attrib[ky]) + translate[1])\<close>,
  evaluated left to right.
\<close>

definition attr_coord ::
  "('f::{zero,plus}) ext \<Rightarrow> element \<Rightarrow> string \<Rightarrow> string \<Rightarrow> 'f point \<Rightarrow> error + 'f point" where
  "attr_coord E el kx ky translate =
     bind_err (attr el kx) (\<lambda>sx. bind_err (float_s3 E sx) (\<lambda>x.
     bind_err (attr el ky) (\<lambda>sy. bind_err (float_s3 E sy) (\<lambda>y.
       Inr (x + fst translate, y + snd translate)))))"

text \<open>
  The handler of \<open>except RuntimeError\<close> around \<open>get_group_transform\<close>: it formats the
  warning from \<open>attrib["transform"]\<close>; any other exception goes on.
\<close>

definition on_transform_error ::
  "element \<Rightarrow> error \<Rightarrow> (string \<Rightarrow> 'w) \<Rightarrow> ('w \<Rightarrow> error + 's) \<Rightarrow> error + 's" where
  "on_transform_error grp e mk continue =
     (if e = RuntimeError then bind_err (attr grp ''transform'') (\<lambda>t. continue (mk t)) else Inl e)"

subsection \<open>Doors\<close>

fun approach_points_of ::
  "('f::{zero,plus}) ext \<Rightarrow> 'f point \<Rightarrow> element list \<Rightarrow> error + 'f point list" where
  "approach_points_of E translate [] = Inr []"
| "approach_points_of E translate (circle # circles) =
     bind_err (attr_coord E circle ''cx'' ''cy'' translate) (\<lambda>p.
     bind_err (approach_points_of E translate circles) (\<lambda>ps. Inr (p # ps)))"

definition door_group_body ::
  "('f::{zero,plus}) ext \<Rightarrow> element \<Rightarrow> 'f door list \<times> 'f warning list \<Rightarrow>
     error + ('f door list \<times> 'f warning list)" where
  "door_group_body E door_group = (\<lambda>(doors, warns).
     (case get_text_from_group door_group of
        None \<Rightarrow> Inl AttributeError
      | Some label \<Rightarrow>
          (let name = text_of label in
           case get_group_transform E door_group of
             Inl e \<Rightarrow> on_transform_error door_group e (DoorGroupComplexTransform name)
                        (\<lambda>w. Inr (doors, warns @ [w]))
           | Inr translate \<Rightarrow>
               (let circles = findall_child circle_el door_group in
                if length circles \<noteq> 2
                then Inr (doors, warns @ [DoorGroupApproachCount name (length circles)])
                else bind_err (approach_points_of E translate circles) (\<lambda>approach_points.
                  case extract_line_from_path E (find_child path_el door_group) (Some translate) of
                    Inl e \<Rightarrow> if e = RuntimeError then Inr (doors, warns @ [DoorGroupNoLine name])
                             else Inl e
                  | Inr door_line \<Rightarrow> Inr (doors @ [(name, door_line, approach_points)], warns))))))"

definition process_door_groups ::
  "('f::{zero,plus}) ext \<Rightarrow> element list \<Rightarrow> error + ('f door list \<times> 'f warning list)" where
  "process_door_groups E door_groups = for_each (door_group_body E) door_groups ([], [])"

subsection \<open>Poses and regions drawn as paths\<close>

text \<open>
  In Python 3 \<open>map\<close> is lazy. The vertices of a region are stored as a \<open>map\<close> object
  whose function \<open>lambda p: (p[0] + translate[0], p[1] + translate[1])\<close> reads the
  variable \<open>translate\<close> of the enclosing function when the object is consumed, which is
  after the loop has ended. So the state of the loop holds the variable \<open>translate\<close>
  beside the accumulators, a region is stored with what its \<open>map\<close> will run over (the
  segments of the path, or the rounded points of the polygon), and the vertices are
  computed at the end, with the value that \<open>translate\<close> has then. Before its first
  assignment the variable is unbound; no region exists then, and the state holds
  \<open>(0, 0)\<close>. Poses, points and doors are tuples and lists, built at once.
\<close>

type_synonym 'f path_region = "string option \<times> 'f segment list"

definition path_group_body ::
  "('f::{zero,plus}) ext \<Rightarrow> element \<Rightarrow>
     'f pose list \<times> 'f path_region list \<times> 'f warning list \<times> 'f point \<Rightarrow>
     error + ('f pose list \<times> 'f path_region list \<times> 'f warning list \<times> 'f point)" where
  "path_group_body E grp = (\<lambda>(poses, regions, warns, translate).
     if length (children grp) \<noteq> 2 then Inr (poses, regions, warns, translate)
     else
       (let path = find_desc path_el grp; label = get_text_from_group grp in
        case label of
          None \<Rightarrow> Inr (poses, regions, warns @ [PathGroupNoLabel], translate)
        | Some label \<Rightarrow>
            (let name = text_of label; translate = (0, 0) in
             case get_group_transform E grp of
               Inl e \<Rightarrow> on_transform_error grp e (PathGroupComplexTransform name)
                          (\<lambda>w. Inr (poses, regions, warns @ [w], translate))
             | Inr translate \<Rightarrow>
                 (case extract_line_from_path E path (Some translate) of
                    Inr pose \<Rightarrow> Inr (poses @ [(name, fst pose, snd pose)], regions, warns, translate)
                  | Inl e \<Rightarrow>
                      if e \<noteq> RuntimeError then Inl e
                      else
                        (case path of
                           None \<Rightarrow> Inl AttributeError
                         | Some p \<Rightarrow>
                             bind_err (attr p ''d'') (\<lambda>d.
                             bind_err (parse_path E d) (\<lambda>path_geom.
                               if list_all is_line path_geom
                               then Inr (poses, regions @ [(name, path_geom)], warns, translate)
                               else Inr (poses, regions, warns @ [PathUnparseable name], translate))))))))"

text \<open>
  The vertices a stored \<open>map\<close> yields: the start of each segment, rounded, plus the value
  of \<open>translate\<close> at the time it is consumed.
\<close>

definition path_region_vertices ::
  "('f::{zero,plus}) ext \<Rightarrow> 'f point \<Rightarrow> 'f path_region \<Rightarrow> 'f region" where
  "path_region_vertices E translate = (\<lambda>(name, path_geom).
     (name, map (\<lambda>l. place E translate (seg_start l)) path_geom))"

definition process_paths ::
  "('f::{zero,plus}) ext \<Rightarrow> element list \<Rightarrow> error + ('f pose list \<times> 'f region list \<times> 'f warning list)" where
  "process_paths E path_groups =
     (if length path_groups = 0 then Inr ([], [], [])
      else bind_err (for_each (path_group_body E) path_groups ([], [], [], (0, 0)))
             (\<lambda>(poses, regions, warns, translate).
                Inr (poses, map (path_region_vertices E translate) regions, warns)))"

subsection \<open>Annotations tagged by the annotation tool\<close>

text \<open>The loops run over \<open>zip(annotations, names, parents)\<close>, which stops at the shortest list.\<close>

definition zip3 :: "'a list \<Rightarrow> 'b list \<Rightarrow> 'c list \<Rightarrow> ('a \<times> 'b \<times> 'c) list" where
  "zip3 xs ys zs = zip xs (zip ys zs)"

definition point_annotation_body ::
  "('f::{zero,plus}) ext \<Rightarrow> element \<times> element \<times> element \<Rightarrow>
     'f named_point list \<times> 'f warning list \<Rightarrow> error + ('f named_point list \<times> 'f warning list)" where
  "point_annotation_body E = (\<lambda>(point, label, parent) (points, warns).
     (let name = text_of label in
      case get_group_transform E parent of
        Inl e \<Rightarrow> on_transform_error parent e (PointComplexTransform name)
                   (\<lambda>w. Inr (points, warns @ [w]))
      | Inr translate \<Rightarrow>
          bind_err (attr_coord E point ''cx'' ''cy'' translate) (\<lambda>pixel_coord.
            Inr (points @ [(name, pixel_coord)], warns))))"

definition process_point_annotations ::
  "('f::{zero,plus}) ext \<Rightarrow> element list \<Rightarrow> element list \<Rightarrow> element list \<Rightarrow>
     error + ('f named_point list \<times> 'f warning list)" where
  "process_point_annotations E point_names point_annotations point_groups =
     for_each (point_annotation_body E) (zip3 point_annotations point_names point_groups) ([], [])"

definition pose_annotation_body ::
  "('f::{zero,plus}) ext \<Rightarrow> element \<times> element \<times> element \<Rightarrow>
     'f pose list \<times> 'f warning list \<Rightarrow> error + ('f pose list \<times> 'f warning list)" where
  "pose_annotation_body E = (\<lambda>(pose, label, parent) (poses, warns).
     (let name = text_of label in
      case get_group_transform E parent of
        Inl e \<Rightarrow> on_transform_error parent e (PoseComplexTransform name)
                   (\<lambda>w. Inr (poses, warns @ [w]))
      | Inr translate \<Rightarrow>
          bind_err (attr_coord E pose ''x1'' ''y1'' translate) (\<lambda>start_cord.
          bind_err (attr_coord E pose ''x2'' ''y2'' translate) (\<lambda>stop_cord.
            Inr (poses @ [(name, start_cord, stop_cord)], warns)))))"

definition process_pose_annotations ::
  "('f::{zero,plus}) ext \<Rightarrow> element list \<Rightarrow> element list \<Rightarrow> element list \<Rightarrow>
     error + ('f pose list \<times> 'f warning list)" where
  "process_pose_annotations E pose_names pose_annotations pose_groups =
     for_each (pose_annotation_body E) (zip3 pose_annotations pose_names pose_groups) ([], [])"

text \<open>
  \<open>str.split(sep)\<close> cuts at every separator and keeps empty pieces; \<open>str.split()\<close> cuts at
  runs of whitespace and has no empty piece. A character of the model is a code point
  below 256; among these the whitespace of Python 3 is the twelve characters of
  \<open>is_space\<close>, and the decimal digits that \<open>\d\<close> matches are the ten of \<open>is_digit\<close>. Text
  with other characters is outside the model.
\<close>

fun split_where :: "(char \<Rightarrow> bool) \<Rightarrow> string \<Rightarrow> string list" where
  "split_where P [] = [[]]"
| "split_where P (c # cs) =
     (if P c then [] # split_where P cs
      else (case split_where P cs of [] \<Rightarrow> [[c]] | w # ws \<Rightarrow> (c # w) # ws))"

definition is_space :: "char \<Rightarrow> bool" where
  "is_space c = (c \<in> set [CHR 0x09, CHR 0x0A, CHR 0x0B, CHR 0x0C, CHR 0x0D,
                           CHR 0x1C, CHR 0x1D, CHR 0x1E, CHR 0x1F, CHR '' '', CHR 0x85, CHR 0xA0])"

definition split_ws :: "string \<Rightarrow> string list" where
  "split_ws s = filter (\<lambda>w. w \<noteq> []) (split_where is_space s)"

definition split_comma :: "string \<Rightarrow> string list" where
  "split_comma s = split_where (\<lambda>c. c = CHR '','') s"

text \<open>
  \<open>[(float_s3(x_str), float_s3(y_str)) for x_str, y_str in map(lambda x: x.split(","), points_strs)]\<close>:
  an item that does not split in two, or a piece that is no number, is a \<open>ValueError\<close>.
\<close>

fun poly_points_of :: "'f ext \<Rightarrow> string list \<Rightarrow> error + 'f point list" where
  "poly_points_of E [] = Inr []"
| "poly_points_of E (item # items) =
     (case split_comma item of
        [x_str, y_str] \<Rightarrow>
          bind_err (float_s3 E x_str) (\<lambda>x. bind_err (float_s3 E y_str) (\<lambda>y.
          bind_err (poly_points_of E items) (\<lambda>ps. Inr ((x, y) # ps))))
      | _ \<Rightarrow> Inl ValueError)"

text \<open>
  The loop over the tagged polygons stores a lazy \<open>map\<close> too: its state holds
  \<open>translate\<close>, and a region is stored with the rounded points of the polygon, which the
  list comprehension has computed at once.
\<close>

definition region_annotation_body ::
  "('f::{zero,plus}) ext \<Rightarrow> element \<times> element \<times> element \<Rightarrow>
     'f region list \<times> 'f warning list \<times> 'f point \<Rightarrow>
     error + ('f region list \<times> 'f warning list \<times> 'f point)" where
  "region_annotation_body E = (\<lambda>(region, label, parent) (regions, warns, translate).
     (let name = text_of label; translate = (0, 0) in
      case get_group_transform E parent of
        Inl e \<Rightarrow> on_transform_error parent e (RegionComplexTransform name)
                   (\<lambda>w. Inr (regions, warns @ [w], translate))
      | Inr translate \<Rightarrow>
          bind_err (attr region ''points'') (\<lambda>points.
          bind_err (poly_points_of E (split_ws points)) (\<lambda>poly_points.
            Inr (regions @ [(name, poly_points)], warns, translate)))))"

text \<open>\<open>lambda p: (p[0] + translate[0], p[1] + translate[1])\<close>, mapped over the points.\<close>

definition translated :: "('f::plus) point \<Rightarrow> 'f region \<Rightarrow> 'f region" where
  "translated translate = (\<lambda>(name, poly_points).
     (name, map (\<lambda>p. (fst p + fst translate, snd p + snd translate)) poly_points))"

definition process_region_annotations ::
  "('f::{zero,plus}) ext \<Rightarrow> element list \<Rightarrow> element list \<Rightarrow> element list \<Rightarrow>
     error + ('f region list \<times> 'f warning list)" where
  "process_region_annotations E region_names region_annotations region_groups =
     bind_err (for_each (region_annotation_body E)
                 (zip3 region_annotations region_names region_groups) ([], [], (0, 0)))
       (\<lambda>(regions, warns, translate). Inr (map (translated translate) regions, warns))"

subsection \<open>The queries of \<open>load_svg\<close>\<close>

text \<open>\<open>tree.findall(".//tag[@class='cls']")\<close>\<close>

definition findall_class :: "string \<Rightarrow> string \<Rightarrow> element \<Rightarrow> (nat list \<times> element) list" where
  "findall_class tg cls tree =
     filter (\<lambda>(p, e). map_of (attrib e) ''class'' = Some cls) (findall_desc tg tree)"

text \<open>
  \<open>tree.findall(".//tag[@class='cls']/../sib")\<close>: the step \<open>..\<close> yields each parent of a
  match once, in the order of its first match; the last step yields the children of
  each of them that have the tag \<open>sib\<close>.
\<close>

definition first_occurrences :: "'a list \<Rightarrow> 'a list" where
  "first_occurrences xs = rev (remdups (rev xs))"

definition findall_class_sibling :: "string \<Rightarrow> string \<Rightarrow> string \<Rightarrow> element \<Rightarrow> element list" where
  "findall_class_sibling tg cls sib tree =
     concat (map (\<lambda>pos. case map_of (iter_from [] tree) pos of
                           None \<Rightarrow> []
                         | Some parent \<Rightarrow> findall_child sib parent)
       (first_occurrences (map (\<lambda>(p, e). butlast p) (findall_class tg cls tree))))"

text \<open>\<open>tree.findall(".//g[tag]")\<close>: the groups below the root that have a child with the tag.\<close>

definition findall_groups_with :: "string \<Rightarrow> element \<Rightarrow> element list" where
  "findall_groups_with tg tree =
     map snd (filter (\<lambda>(p, g). find_child tg g \<noteq> None) (findall_desc group_el tree))"

text \<open>
  \<open>parent_map = {c: p for p in tree.iter() for c in p}\<close> and
  \<open>map(parent_map.__getitem__, annotations)\<close>.
\<close>

definition parent_map :: "element \<Rightarrow> nat list \<Rightarrow> element option" where
  "parent_map tree pos = (if pos = [] then None else map_of (iter_from [] tree) (butlast pos))"

fun parents_of :: "element \<Rightarrow> (nat list \<times> element) list \<Rightarrow> error + element list" where
  "parents_of tree [] = Inr []"
| "parents_of tree (pc # pcs) =
     (case parent_map tree (fst pc) of
        None \<Rightarrow> Inl (KeyError ''parent_map'')
      | Some parent \<Rightarrow> bind_err (parents_of tree pcs) (\<lambda>ps. Inr (parent # ps)))"

subsection \<open>Point groups and \<open>load_svg\<close>\<close>

text \<open>The body of the loop over \<open>point_groups\<close> in \<open>load_svg\<close>.\<close>

definition point_group_body ::
  "('f::{zero,plus}) ext \<Rightarrow> element \<Rightarrow> 'f named_point list \<times> 'f warning list \<Rightarrow>
     error + ('f named_point list \<times> 'f warning list)" where
  "point_group_body E grp = (\<lambda>(extra_points, warns).
     (case get_text_from_group grp of
        None \<Rightarrow> Inl AttributeError
      | Some label \<Rightarrow>
          (let name = text_of label in
           case get_group_transform E grp of
             Inl e \<Rightarrow> on_transform_error grp e (PointGroupComplexTransform name)
                        (\<lambda>w. Inr (extra_points, warns @ [w]))
           | Inr translate \<Rightarrow>
               (case find_desc circle_el grp of
                  None \<Rightarrow> Inl AttributeError
                | Some circle \<Rightarrow>
                    if map_of (attrib circle) ''class'' \<noteq> None then Inr (extra_points, warns)
                    else bind_err (attr_coord E circle ''cx'' ''cy'' translate) (\<lambda>pixel_coord.
                           Inr (extra_points @ [(name, pixel_coord)], warns))))))"

definition process_point_groups ::
  "('f::{zero,plus}) ext \<Rightarrow> element list \<Rightarrow> error + ('f named_point list \<times> 'f warning list)" where
  "process_point_groups E point_groups = for_each (point_group_body E) point_groups ([], [])"

type_synonym 'f annotations =
  "'f named_point list \<times> 'f pose list \<times> 'f region list \<times> 'f door list"

definition load_svg ::
  "('f::{zero,plus}) ext \<Rightarrow> element \<Rightarrow> error + ('f annotations \<times> 'f warning list)" where
  "load_svg E tree =
     (let point_annotations = findall_class circle_el ''circle_annotation'' tree;
          point_names = findall_class_sibling circle_el ''circle_annotation'' text_el tree;
          pose_annotations = findall_class line_el ''pose_line_annotation'' tree;
          pose_names = findall_class_sibling line_el ''pose_line_annotation'' text_el tree;
          region_annotations = findall_class poly_el ''region_annotation'' tree;
          region_names = findall_class_sibling poly_el ''region_annotation'' text_el tree;
          path_groups = findall_groups_with path_el tree;
          circle_groups = findall_groups_with circle_el tree;
          point_groups = filter (\<lambda>g. length (children g) = 2) circle_groups;
          door_groups = filter (\<lambda>g. length (children g) = 4) circle_groups
      in
      bind_err (parents_of tree point_annotations) (\<lambda>point_parents.
      bind_err (process_point_annotations E point_names (map snd point_annotations) point_parents)
        (\<lambda>(points, w1).
      bind_err (parents_of tree pose_annotations) (\<lambda>pose_parents.
      bind_err (process_pose_annotations E pose_names (map snd pose_annotations) pose_parents)
        (\<lambda>(poses, w2).
      bind_err (parents_of tree region_annotations) (\<lambda>region_parents.
      bind_err (process_region_annotations E region_names (map snd region_annotations) region_parents)
        (\<lambda>(regions, w3).
      bind_err (process_door_groups E door_groups) (\<lambda>(doors, w4).
      bind_err (process_paths E path_groups) (\<lambda>(path_poses, path_regions, w5).
      bind_err (process_point_groups E point_groups) (\<lambda>(extra_points, w6).
        Inr ((points @ extra_points, poses @ path_poses, regions @ path_regions, doors),
             w1 @ w2 @ w3 @ w4 @ w5 @ w6)))))))))))"

subsection \<open>Projection to map coordinates\<close>

text \<open>
  \<open>point_to_map_coords\<close> is imported from another module; it is the parameter \<open>conv\<close>,
  applied to the map's metadata and a point.
\<close>

fun transform_doors :: "('f point \<Rightarrow> 'f point) \<Rightarrow> 'f door list \<Rightarrow> error + 'f door list" where
  "transform_doors c [] = Inr []"
| "transform_doors c (door # doors) =
     (case door of (name, (d_p1, d_p2), approach) \<Rightarrow>
        (case approach of
           [p1, p2] \<Rightarrow>
             bind_err (transform_doors c doors) (\<lambda>ds.
               Inr ((name, (c d_p1, c d_p2), [c p1, c p2]) # ds))
         | _ \<Rightarrow> Inl ValueError))"

definition transform_to_map_coords ::
  "('m \<Rightarrow> 'f point \<Rightarrow> 'f point) \<Rightarrow> 'm \<Rightarrow> 'f annotations \<Rightarrow> error + 'f annotations" where
  "transform_to_map_coords conv map_info = (\<lambda>(points, poses, regions, doors).
     (let points' = map (\<lambda>(name, point). (name, conv map_info point)) points;
          poses' = map (\<lambda>(name, p1, p2). (name, conv map_info p1, conv map_info p2)) poses;
          regions' = map (\<lambda>(name, poly_points). (name, map (conv map_info) poly_points)) regions
      in bind_err (transform_doors (conv map_info) doors) (\<lambda>doors'.
           Inr (points', poses', regions', doors'))))"

subsection \<open>The consistency check\<close>

text \<open>\<open>"{}".format(n)\<close> for a size of the image, a natural number.\<close>

function str_nat :: "nat \<Rightarrow> string" where
  "str_nat n = (if n < 10 then [''0123456789'' ! n] else str_nat (n div 10) @ [''0123456789'' ! (n mod 10)])"
  by pat_completeness auto
termination
  by (relation "measure id") auto

declare str_nat.simps [simp del]

text \<open>\<open>float(s)\<close>, the \<open>ValueError\<close> made a result.\<close>

definition float_of :: "'f ext \<Rightarrow> string \<Rightarrow> error + 'f" where
  "float_of E s = (case py_float E s of None \<Rightarrow> Inl ValueError | Some v \<Rightarrow> Inr v)"

text \<open>The two local functions of \<open>check_svg_valid\<close>; both append to its list \<open>problems\<close>.\<close>

definition ori_is_zero ::
  "'f ext \<Rightarrow> element option \<Rightarrow> 'f problem list \<Rightarrow> error + 'f problem list" where
  "ori_is_zero E element problems =
     (case element of
        None \<Rightarrow> Inl AttributeError
      | Some el \<Rightarrow>
          if map_of (attrib el) ''x'' = None then Inr problems
          else
            bind_err (attr el ''x'') (\<lambda>sx. bind_err (float_of E sx) (\<lambda>ori_x.
            bind_err (attr el ''y'') (\<lambda>sy. bind_err (float_of E sy) (\<lambda>ori_y.
              if \<not> num_eq E ori_x 0 \<or> \<not> num_eq E ori_y 0
              then Inr (problems @ [OriginProblem ori_x ori_y])
              else Inr problems)))))"

definition dim_match ::
  "'f ext \<Rightarrow> element option \<Rightarrow> nat \<Rightarrow> nat \<Rightarrow> 'f problem list \<Rightarrow> error + 'f problem list" where
  "dim_match E element w h problems =
     (case element of
        None \<Rightarrow> Inl AttributeError
      | Some el \<Rightarrow>
          if map_of (attrib el) ''width'' = None then Inr problems
          else
            bind_err (attr el ''width'') (\<lambda>sw. bind_err (float_of E sw) (\<lambda>e_w.
            bind_err (attr el ''height'') (\<lambda>sh. bind_err (float_of E sh) (\<lambda>e_h.
              if \<not> num_eq E e_w (int w) \<or> \<not> num_eq E e_h (int h)
              then Inr (problems @ [DimensionProblem e_w e_h w h])
              else Inr problems)))))"

definition check_svg_valid :: "'f ext \<Rightarrow> element \<Rightarrow> nat \<Rightarrow> nat \<Rightarrow> error + 'f problem list" where
  "check_svg_valid E tree width height =
     (let svg = tree; image = find_child image_el tree in
      bind_err (attr svg ''viewBox'') (\<lambda>viewbox.
        let target_viewbox = ''0 0 '' @ str_nat width @ '' '' @ str_nat height;
            problems = (if viewbox \<noteq> target_viewbox then [ViewboxProblem viewbox target_viewbox] else [])
        in
        bind_err (dim_match E (Some svg) width height problems) (\<lambda>problems.
        bind_err (ori_is_zero E image problems) (\<lambda>problems.
        dim_match E image width height problems))))"

subsection \<open>Loading the annotations of a map\<close>

text \<open>
  \<open>load_map_from_yaml\<close> from the point where the annotation file has been read: the check,
  whose messages become warnings, the extraction, and the projection unless the caller
  asked for pixel coordinates. Reading the files is outside the model: the arguments are
  the parsed document, the size of the map image and the map's metadata.
\<close>

definition load_map_from_yaml ::
  "('f::{zero,plus}) ext \<Rightarrow> ('m \<Rightarrow> 'f point \<Rightarrow> 'f point) \<Rightarrow> 'm \<Rightarrow> nat \<Rightarrow> nat \<Rightarrow> bool \<Rightarrow> element \<Rightarrow>
     error + ('f annotations \<times> 'f warning list)" where
  "load_map_from_yaml E conv map_metadata width height use_pixel_coords svg_data =
     bind_err (check_svg_valid E svg_data width height) (\<lambda>svg_problems.
     bind_err (load_svg E svg_data) (\<lambda>(annotations, warns).
       if \<not> use_pixel_coords
       then bind_err (transform_to_map_coords conv map_metadata annotations) (\<lambda>annotations.
              Inr (annotations, map SvgProblem svg_problems @ warns))
       else Inr (annotations, map SvgProblem svg_problems @ warns)))"

subsection \<open>An interpretation of the library functions\<close>

text \<open>
  Concrete inputs need concrete numbers. In \<open>exact_ext\<close> a float is a rational number:
  \<open>float\<close> reads a signed decimal numeral exactly, \<open>round(x, 3)\<close> rounds to the nearest
  multiple of 1/1000, and \<open>parse_path\<close> knows the few paths the examples use, with the
  segments \<open>svgpathtools\<close> gives for them. On the numerals of the examples (integers)
  Python's floats compute the same values.
\<close>

text \<open>The value of a digit is its place in the string of the digits.\<close>

definition digit_val :: "char \<Rightarrow> nat" where
  "digit_val c = length (takeWhile (\<lambda>d. d \<noteq> c) ''0123456789'')"

definition digits_val :: "string \<Rightarrow> nat" where
  "digits_val ds = foldl (\<lambda>n c. 10 * n + digit_val c) 0 ds"

definition unsigned_decimal :: "string \<Rightarrow> rat option" where
  "unsigned_decimal s =
     (let ip = takeWhile is_digit s; r = dropWhile is_digit s in
      if r = [] then (if ip = [] then None else Some (of_nat (digits_val ip)))
      else if hd r = CHR ''.'' \<and> tl r \<noteq> [] \<and> list_all is_digit (tl r)
      then Some (of_nat (digits_val ip) + of_nat (digits_val (tl r)) / 10 ^ length (tl r))
      else None)"

definition exact_float :: "string \<Rightarrow> rat option" where
  "exact_float s =
     (case s of
        [] \<Rightarrow> None
      | c # r \<Rightarrow>
          if c = CHR ''-'' then map_option uminus (unsigned_decimal r)
          else if c = CHR ''+'' then unsigned_decimal r
          else unsigned_decimal s)"

definition example_paths :: "string \<Rightarrow> error + rat segment list" where
  "example_paths d =
     (if d = ''M0,0'' then Inr []
      else if d = ''M0,0 L0,5'' then Inr [Line (0, 0) (0, 5)]
      else if d = ''M0,0 L10,0 L5,5'' then Inr [Line (0, 0) (10, 0), Line (10, 0) (5, 5)]
      else if d = ''M0,0 L10,0 L10,10 Z''
      then Inr [Line (0, 0) (10, 0), Line (10, 0) (10, 10), Line (10, 10) (0, 0)]
      else if d = ''M0,0 C1,1 2,2 3,3'' then Inr [CubicBezier (0, 0) (1, 1) (2, 2) (3, 3)]
      else Inl LibraryError)"

definition exact_ext :: "rat ext" where
  "exact_ext = \<lparr> py_float = exact_float,
                 py_round3 = (\<lambda>x. of_int (round (x * 1000)) / 1000),
                 parse_path = example_paths,
                 num_eq = (\<lambda>x n. x = of_int n) \<rparr>"

subsection \<open>Documents of the examples\<close>

definition chained_transform_doc :: element where
  "chained_transform_doc =
     Element svg_el [] None
       [Element group_el [(''transform'', ''translate(5,5) scale(2)'')] None
          [Element circle_el [(''cx'', ''0''), (''cy'', ''0'')] None [],
           Element text_el [] (Some ''dock'') []]]"

text \<open>A door drawn in a group that is moved by \<open>(5, 5)\<close>.\<close>

definition door_path :: element where
  "door_path = Element path_el [(''d'', ''M0,0 L0,5'')] None []"

definition door_group_example :: element where
  "door_group_example =
     Element group_el [(''transform'', ''translate(5,5)'')] None
       [door_path,
        Element circle_el [(''cx'', ''-2''), (''cy'', ''2'')] None [],
        Element circle_el [(''cx'', ''2''), (''cy'', ''2'')] None [],
        Element text_el [] (Some ''door1'') []]"

text \<open>Path groups: a curve, a path with no segment, a closed path of three lines.\<close>

definition curve_path :: element where
  "curve_path = Element path_el [(''d'', ''M0,0 C1,1 2,2 3,3'')] None []"

definition curve_path_group :: element where
  "curve_path_group = Element group_el [] None [curve_path, Element text_el [] (Some ''curve'') []]"

definition empty_path_doc :: element where
  "empty_path_doc =
     Element svg_el [] None
       [Element group_el [] None
          [Element path_el [(''d'', ''M0,0'')] None [], Element text_el [] (Some ''empty'') []]]"

definition triangle_path :: element where
  "triangle_path = Element path_el [(''d'', ''M0,0 L10,0 L10,10 Z'')] None []"

definition triangle_path_group :: element where
  "triangle_path_group =
     Element group_el [] None [triangle_path, Element text_el [] (Some ''room'') []]"

text \<open>Polygons of the annotation tool: the kitchen of the specification, and one with two vertices.\<close>

definition kitchen_polygon :: element where
  "kitchen_polygon =
     Element poly_el [(''class'', ''region_annotation''), (''points'', ''0,0 10,0 10,10 0,10'')] None []"

definition kitchen_label :: element where
  "kitchen_label = Element text_el [] (Some ''kitchen'') []"

definition kitchen_group :: element where
  "kitchen_group = Element group_el [] None [kitchen_polygon, kitchen_label]"

definition two_vertex_polygon_doc :: element where
  "two_vertex_polygon_doc =
     Element svg_el [] None
       [Element group_el [] None
          [Element poly_el [(''class'', ''region_annotation''), (''points'', ''0,0 10,0'')] None [],
           Element text_el [] (Some ''wall'') []]]"

text \<open>A circle of the annotation tool in a group that is moved by \<open>(5, 5)\<close>.\<close>

definition charger_circle :: element where
  "charger_circle =
     Element circle_el [(''class'', ''circle_annotation''), (''cx'', ''10''), (''cy'', ''20'')] None []"

definition charger_label :: element where
  "charger_label = Element text_el [] (Some ''charger'') []"

definition charger_group :: element where
  "charger_group =
     Element group_el [(''transform'', ''translate(5,5)'')] None [charger_circle, charger_label]"


definition entry_line :: element where
  "entry_line =
     Element line_el [(''class'', ''pose_line_annotation''), (''x1'', ''0''), (''y1'', ''0''),
       (''x2'', ''10''), (''y2'', ''0'')] None []"

text \<open>Groups with no \<open>text\<close> and no \<open>tspan\<close>: a point group, a door group, a path group.\<close>

definition rect_el :: string where "rect_el = ''{http://www.w3.org/2000/svg}rect''"

definition unlabelled_point_doc :: element where
  "unlabelled_point_doc =
     Element svg_el [] None
       [Element group_el [] None
          [Element circle_el [(''cx'', ''1''), (''cy'', ''2'')] None [],
           Element rect_el [] None []]]"

definition unlabelled_door_doc :: element where
  "unlabelled_door_doc =
     Element svg_el [] None
       [Element group_el [] None
          [door_path,
           Element circle_el [(''cx'', ''-2''), (''cy'', ''2'')] None [],
           Element circle_el [(''cx'', ''2''), (''cy'', ''2'')] None [],
           Element rect_el [] None []]]"

definition unlabelled_path_doc :: element where
  "unlabelled_path_doc =
     Element svg_el [] None [Element group_el [] None [door_path, Element rect_el [] None []]]"

text \<open>A door group one of whose circles carries the marker of the annotation tool.\<close>

definition marked_circle_door_doc :: element where
  "marked_circle_door_doc =
     Element svg_el [] None
       [Element group_el [] None
          [door_path,
           Element circle_el [(''class'', ''circle_annotation''), (''cx'', ''-2''), (''cy'', ''2'')] None [],
           Element circle_el [(''cx'', ''2''), (''cy'', ''2'')] None [],
           Element text_el [] (Some ''door1'') []]]"

text \<open>Whether the first circle below a group has a \<open>class\<close> attribute, the test of \<open>load_svg\<close>.\<close>

definition first_circle_marked :: "element \<Rightarrow> bool" where
  "first_circle_marked grp =
     (case find_desc circle_el grp of
        None \<Rightarrow> False
      | Some circle \<Rightarrow> map_of (attrib circle) ''class'' \<noteq> None)"

text \<open>Two point groups, the first with a circle of the annotation tool.\<close>

definition dock_group :: element where
  "dock_group =
     Element group_el [(''transform'', ''translate(5,5)'')] None
       [Element circle_el [(''cx'', ''0''), (''cy'', ''0'')] None [],
        Element text_el [] (Some ''dock'') []]"

text \<open>
  What the consistency check reads from an element: the first attribute may be absent;
  when it is present, \<open>float\<close> must read it, and the second attribute must be present
  and readable too.
\<close>

definition readable_pair :: "'f ext \<Rightarrow> element \<Rightarrow> string \<Rightarrow> string \<Rightarrow> bool" where
  "readable_pair E el k1 k2 =
     (case map_of (attrib el) k1 of
        None \<Rightarrow> True
      | Some s1 \<Rightarrow>
          py_float E s1 \<noteq> None \<and>
          (case map_of (attrib el) k2 of None \<Rightarrow> False | Some s2 \<Rightarrow> py_float E s2 \<noteq> None))"

text \<open>A document of a map of 100 by 50 pixels, and one with no \<open>viewBox\<close>.\<close>

definition map_image :: element where
  "map_image =
     Element image_el [(''x'', ''0''), (''y'', ''0''), (''width'', ''100''), (''height'', ''60'')] None []"

definition map_doc :: element where
  "map_doc = Element svg_el [(''viewBox'', ''0 0 100 50'')] None [map_image, charger_group]"

definition no_viewbox_doc :: element where
  "no_viewbox_doc = Element svg_el [(''width'', ''100''), (''height'', ''50'')] None [map_image]"

text \<open>
  The projection of the four collections by a conversion of points, as a function of its
  own: what \<open>transform_to_map_coords\<close> is compared with.
\<close>

definition two_approach_points :: "'f door \<Rightarrow> bool" where
  "two_approach_points door = (length (snd (snd door)) = 2)"

definition project_door :: "('f point \<Rightarrow> 'f point) \<Rightarrow> 'f door \<Rightarrow> 'f door" where
  "project_door c = (\<lambda>(name, (d_p1, d_p2), approach). (name, (c d_p1, c d_p2), map c approach))"

definition project :: "('f point \<Rightarrow> 'f point) \<Rightarrow> 'f annotations \<Rightarrow> 'f annotations" where
  "project c = (\<lambda>(points, poses, regions, doors).
     (map (\<lambda>(name, p). (name, c p)) points,
      map (\<lambda>(name, p1, p2). (name, c p1, c p2)) poses,
      map (\<lambda>(name, vertices). (name, map c vertices)) regions,
      map (project_door c) doors))"

text \<open>
  A stand-in for \<open>point_to_map_coords\<close> in the examples: it scales by the resolution of
  the map and flips the vertical axis of an image 50 pixels high.
\<close>

definition example_conv :: "rat \<Rightarrow> rat point \<Rightarrow> rat point" where
  "example_conv resolution = (\<lambda>(x, y). (resolution * x, resolution * (50 - y)))"

definition door_map_doc :: element where
  "door_map_doc =
     Element svg_el [(''viewBox'', ''0 0 100 50'')] None [map_image, charger_group, door_group_example]"

text \<open>
  The triples that the loops over the tagged circles, lines and polygons go through:
  \<open>zip(annotations, names, parents)\<close> with the three lists as \<open>load_svg\<close> builds them, the
  parents through \<open>parent_map\<close>.
\<close>

definition annotation_triples :: "element \<Rightarrow> string \<Rightarrow> string \<Rightarrow> (element \<times> element \<times> element) list" where
  "annotation_triples tree tg cls =
     (case parents_of tree (findall_class tg cls tree) of
        Inl e \<Rightarrow> []
      | Inr parents \<Rightarrow>
          zip3 (map snd (findall_class tg cls tree)) (findall_class_sibling tg cls text_el tree) parents)"




text \<open>
  A document with a tagged circle, a tagged line and a tagged polygon, each in a group of
  its own that is moved.
\<close>

definition tagged_shapes_doc :: element where
  "tagged_shapes_doc =
     Element svg_el [] None
       [charger_group,
        Element group_el [(''transform'', ''translate(1,2)'')] None
          [entry_line, Element text_el [] (Some ''entry'') []],
        Element group_el [(''transform'', ''translate(5,5)'')] None [kitchen_polygon, kitchen_label]]"

text \<open>
  Two tagged polygons with the same points: the group of the first is moved by
  \<open>(5, 5)\<close>, the group of the second is not moved.
\<close>

definition two_polygons_doc :: element where
  "two_polygons_doc =
     Element svg_el [] None
       [Element group_el [(''transform'', ''translate(5,5)'')] None
          [Element poly_el [(''class'', ''region_annotation''), (''points'', ''0,0 10,0 10,10'')] None [],
           Element text_el [] (Some ''a'') []],
        Element group_el [] None
          [Element poly_el [(''class'', ''region_annotation''), (''points'', ''0,0 10,0 10,10'')] None [],
           Element text_el [] (Some ''b'') []]]"

text \<open>A tagged polygon and a closed path of three lines, each in a group that is moved.\<close>

definition regions_doc :: element where
  "regions_doc =
     Element svg_el [] None
       [Element group_el [(''transform'', ''translate(5,5)'')] None [kitchen_polygon, kitchen_label],
        Element group_el [(''transform'', ''translate(2,3)'')] None
          [triangle_path, Element text_el [] (Some ''room'') []]]"

section \<open>Properties\<close>

subsection \<open>The translation pattern accepts exactly what it should on a single translate\<close>

lemma sound_lit: "list_all P w \<Longrightarrow> sound (lit w) P"
  by (auto simp: sound_def lit_def split: if_splits) (metis append_take_drop_id)

lemma sound_seq: "sound m1 P \<Longrightarrow> sound m2 P \<Longrightarrow> sound (seq m1 m2) P"
  by (fastforce simp: sound_def seq_def)

lemma sound_alt: "sound m1 P \<Longrightarrow> sound m2 P \<Longrightarrow> sound (alt m1 m2) P"
  by (auto simp: sound_def alt_def)

lemma sound_opt: "(\<And>c. Q c \<Longrightarrow> P c) \<Longrightarrow> sound (opt_class Q) P"
  by (auto simp: sound_def opt_class_def split: list.splits if_splits)

lemma star_class_sound: "(c, r) \<in> set (star_class Q s) \<Longrightarrow> s = c @ r \<and> list_all Q c"
  by (induction s arbitrary: c r) (auto split: if_splits)

lemma sound_star: "(\<And>c. Q c \<Longrightarrow> P c) \<Longrightarrow> sound (star_class Q) P"
  unfolding sound_def using star_class_sound by (metis (full_types) list_all_iff)

lemma sound_plus: "(\<And>c. Q c \<Longrightarrow> P c) \<Longrightarrow> sound (plus_class Q) P"
  using sound_star[of Q P] by (auto simp: sound_def plus_class_def)

lemma sound_float_pattern: "sound float_pattern float_char"
  unfolding float_pattern_def
  by (intro sound_alt sound_seq sound_opt sound_star sound_plus sound_lit)
     (auto simp: float_char_def)

lemma star_class_complete: "list_all Q ds \<Longrightarrow> (ds, r) \<in> set (star_class Q (ds @ r))"
proof (induction ds)
  case Nil
  then show ?case by (cases r) auto
next
  case (Cons d ds)
  then show ?case by force
qed

lemma plus_class_complete: "list_all Q ds \<Longrightarrow> ds \<noteq> [] \<Longrightarrow> (ds, r) \<in> set (plus_class Q (ds @ r))"
  by (simp add: plus_class_def star_class_complete)

lemma seq_complete:
  "(c1, r1) \<in> set (m1 s) \<Longrightarrow> (c2, r2) \<in> set (m2 r1) \<Longrightarrow> (c1 @ c2, r2) \<in> set (seq m1 m2 s)"
  by (force simp: seq_def)

lemma lit_complete: "(w, r) \<in> set (lit w (w @ r))"
  by (simp add: lit_def)

lemma unsigned_complete:
  assumes "(r = [] \<and> ip \<noteq> []) \<or> (r \<noteq> [] \<and> hd r = CHR ''.'' \<and> tl r \<noteq> [] \<and> list_all is_digit (tl r))"
    and "list_all is_digit ip"
    and "(sg, ip @ r @ rest) \<in> set (opt_class is_sign (sg @ ip @ r @ rest))"
  shows "(sg @ ip @ r, rest) \<in> set (float_pattern (sg @ ip @ r @ rest))"
proof (cases "r = []")
  case True
  with assms have "(ip, rest) \<in> set (plus_class is_digit (ip @ rest))"
    by (simp add: plus_class_complete)
  with assms(3) True have "(sg @ ip, rest) \<in> set (seq (opt_class is_sign) (plus_class is_digit) (sg @ ip @ rest))"
    using seq_complete by fastforce
  with True show ?thesis by (simp add: float_pattern_def alt_def)
next
  case False
  with assms obtain fr where r: "r = CHR ''.'' # fr" "fr \<noteq> []" "list_all is_digit fr"
    by (cases r) auto
  have 1: "(fr, rest) \<in> set (plus_class is_digit (fr @ rest))"
    using r by (simp add: plus_class_complete)
  have 0: "(''.'', fr @ rest) \<in> set (lit ''.'' (''.'' @ fr @ rest))"
    by (rule lit_complete)
  have 2: "(''.'' @ fr, rest) \<in> set (seq (lit ''.'') (plus_class is_digit) (''.'' @ fr @ rest))"
    by (rule seq_complete[where ?m1.0 = "lit ''.''" and ?m2.0 = "plus_class is_digit"
          and s = "''.'' @ fr @ rest" and ?r1.0 = "fr @ rest", OF 0 1])
  have 3: "(ip, ''.'' @ fr @ rest) \<in> set (star_class is_digit (ip @ ''.'' @ fr @ rest))"
    using assms(2) by (rule star_class_complete)
  have 4: "(ip @ ''.'' @ fr, rest) \<in> set (seq (star_class is_digit) (seq (lit ''.'') (plus_class is_digit)) (ip @ ''.'' @ fr @ rest))"
    by (rule seq_complete[where ?m1.0 = "star_class is_digit" and ?m2.0 = "seq (lit ''.'') (plus_class is_digit)"
          and s = "ip @ ''.'' @ fr @ rest" and ?r1.0 = "''.'' @ fr @ rest", OF 3 2])
  have 5: "(sg, ip @ ''.'' @ fr @ rest) \<in> set (opt_class is_sign (sg @ ip @ ''.'' @ fr @ rest))"
    using assms(3) r by simp
  have "(sg @ ip @ ''.'' @ fr, rest) \<in> set (seq (opt_class is_sign) (seq (star_class is_digit) (seq (lit ''.'') (plus_class is_digit))) (sg @ ip @ ''.'' @ fr @ rest))"
    by (rule seq_complete[where ?m1.0 = "opt_class is_sign"
          and ?m2.0 = "seq (star_class is_digit) (seq (lit ''.'') (plus_class is_digit))"
          and s = "sg @ ip @ ''.'' @ fr @ rest" and ?r1.0 = "ip @ ''.'' @ fr @ rest", OF 5 4])
  then show ?thesis using r by (simp add: float_pattern_def alt_def)
qed

lemma float_pattern_complete:
  assumes "signed_decimal A"
  shows "(A, rest) \<in> set (float_pattern (A @ rest))"
proof -
  define u where "u = strip_sign A"
  define ip where "ip = takeWhile is_digit u"
  define r where "r = dropWhile is_digit u"
  have u: "u = ip @ r" by (simp add: ip_def r_def)
  have ip: "list_all is_digit ip" unfolding ip_def list_all_iff by (auto dest: set_takeWhileD)
  have shape: "(r = [] \<and> ip \<noteq> []) \<or> (r \<noteq> [] \<and> hd r = CHR ''.'' \<and> tl r \<noteq> [] \<and> list_all is_digit (tl r))"
    using assms by (simp add: signed_decimal_def Let_def u_def ip_def r_def)
  obtain sg where sg: "A = sg @ u" "(sg, u @ rest) \<in> set (opt_class is_sign (sg @ u @ rest))"
  proof (cases A)
    case Nil
    then show ?thesis using that[of "[]"] by (simp add: u_def strip_sign_def opt_class_def)
  next
    case (Cons c cs)
    show ?thesis
    proof (cases "is_sign c")
      case True
      then show ?thesis using Cons that[of "[c]"] by (simp add: u_def strip_sign_def opt_class_def)
    next
      case False
      then show ?thesis using Cons that[of "[]"] by (simp add: u_def strip_sign_def opt_class_def)
    qed
  qed
  from unsigned_complete[OF shape ip, of sg rest] sg u show ?thesis by simp
qed

lemma signed_decimal_chars: "signed_decimal A \<Longrightarrow> list_all float_char A"
proof -
  assume a: "signed_decimal A"
  have "(A, []) \<in> set (float_pattern (A @ []))" using a by (rule float_pattern_complete)
  then show ?thesis using sound_float_pattern by (auto simp: sound_def)
qed

lemma split_at_separator:
  "x \<notin> set a \<Longrightarrow> x \<notin> set b \<Longrightarrow> a @ x # r = b @ x # r' \<Longrightarrow> a = b \<and> r = r'"
proof (induction a arbitrary: b)
  case Nil
  then show ?case by (cases b) auto
next
  case (Cons y a)
  then show ?case by (cases b) auto
qed

lemma float_char_not_separator: "float_char c \<Longrightarrow> c \<noteq> CHR '','' \<and> c \<noteq> CHR '')''"
  by (auto simp: float_char_def is_sign_def is_digit_def)

lemma no_separator: "list_all float_char w \<Longrightarrow> CHR '','' \<notin> set w \<and> CHR '')'' \<notin> set w"
  using float_char_not_separator by (induction w) auto

lemma lit_elim: "(c, r) \<in> set (lit w s) \<Longrightarrow> c = w \<and> s = w @ r"
proof -
  assume a: "(c, r) \<in> set (lit w s)"
  then have t: "take (length w) s = w" and c: "c = w" and r: "r = drop (length w) s"
    by (auto simp: lit_def split: if_splits)
  have "s = take (length w) s @ drop (length w) s" by simp
  with t r c show ?thesis by simp
qed

lemma in_then_match:
  "x \<in> set (then_match ms k) \<longleftrightarrow> (\<exists>c r. (c, r) \<in> set ms \<and> x \<in> set (k c r))"
  by (auto simp: then_match_def)

lemma in_lit: "(c, r) \<in> set (lit w s) \<longleftrightarrow> c = w \<and> s = w @ r"
proof
  assume "(c, r) \<in> set (lit w s)"
  then show "c = w \<and> s = w @ r" by (rule lit_elim)
next
  assume "c = w \<and> s = w @ r"
  then show "(c, r) \<in> set (lit w s)" by (simp add: lit_def)
qed

lemma in_translation_matches:
  "(g1, g2) \<in> set (translation_matches s) \<longleftrightarrow>
     (\<exists>r0 r1 r2 r3 r4.
        s = ''translate('' @ r0 \<and> (g1, r1) \<in> set (float_pattern r0) \<and>
        r1 = '','' @ r2 \<and> (g2, r3) \<in> set (float_pattern r2) \<and> r3 = '')'' @ r4)"
  unfolding translation_matches_def by (simp add: in_then_match in_lit) blast

lemma translation_matches_unique:
  assumes A: "signed_decimal A" and B: "signed_decimal B"
    and m: "(g1, g2) \<in> set (translation_matches (''translate('' @ A @ '','' @ B @ '')'' @ rest))"
  shows "g1 = A \<and> g2 = B"
proof -
  have nA: "CHR '','' \<notin> set A" and nB: "CHR '')'' \<notin> set B"
    using no_separator[OF signed_decimal_chars[OF A]] no_separator[OF signed_decimal_chars[OF B]]
    by simp_all
  from m obtain r0 r1 r2 r3 r4 where
    0: "''translate('' @ A @ '','' @ B @ '')'' @ rest = ''translate('' @ r0"
    and 1: "(g1, r1) \<in> set (float_pattern r0)"
    and 2: "r1 = '','' @ r2"
    and 3: "(g2, r3) \<in> set (float_pattern r2)"
    and 4: "r3 = '')'' @ r4"
    unfolding in_translation_matches by blast
  from 0 have r0: "r0 = A @ '','' @ B @ '')'' @ rest" by simp
  from 1 sound_float_pattern have g1: "r0 = g1 @ r1" "list_all float_char g1"
    unfolding sound_def by blast+
  from 3 sound_float_pattern have g2: "r2 = g2 @ r3" "list_all float_char g2"
    unfolding sound_def by blast+
  have n1: "CHR '','' \<notin> set g1" and n2: "CHR '')'' \<notin> set g2"
    using no_separator[OF g1(2)] no_separator[OF g2(2)] by simp_all
  from g1(1) 2 r0 have "g1 @ CHR '','' # r2 = A @ CHR '','' # (B @ '')'' @ rest)" by simp
  from split_at_separator[OF n1 nA this] have e1: "g1 = A" "r2 = B @ '')'' @ rest" by simp_all
  from e1(2) g2(1) 4 have "g2 @ CHR '')'' # r4 = B @ CHR '')'' # rest" by simp
  from split_at_separator[OF n2 nB this] have "g2 = B" by simp
  with e1 show ?thesis by simp
qed


lemma translation_matches_exists:
  assumes A: "signed_decimal A" and B: "signed_decimal B"
  shows "(A, B) \<in> set (translation_matches (''translate('' @ A @ '','' @ B @ '')'' @ rest))"
proof -
  have 1: "(A, '','' @ B @ '')'' @ rest) \<in> set (float_pattern (A @ '','' @ B @ '')'' @ rest))"
    using A by (rule float_pattern_complete)
  have 2: "(B, '')'' @ rest) \<in> set (float_pattern (B @ '')'' @ rest))"
    using B by (rule float_pattern_complete)
  show ?thesis unfolding in_translation_matches using 1 2 by blast
qed

lemma match_translation_translate:
  assumes A: "signed_decimal A" and B: "signed_decimal B"
  shows "match_translation (''translate('' @ A @ '','' @ B @ '')'' @ rest) = Some (A, B)"
proof (cases "translation_matches (''translate('' @ A @ '','' @ B @ '')'' @ rest)")
  case Nil
  with translation_matches_exists[OF A B, of rest] show ?thesis by simp
next
  case (Cons m ms)
  then have "m \<in> set (translation_matches (''translate('' @ A @ '','' @ B @ '')'' @ rest))" by simp
  with translation_matches_unique[OF A B, of "fst m" "snd m" rest] have "m = (A, B)"
    by (cases m) simp
  with Cons show ?thesis by (simp add: match_translation_def)
qed

lemma signed_decimal_example_1: "signed_decimal ''-1.5''"
  by (simp add: signed_decimal_def strip_sign_def is_sign_def is_digit_def)

lemma signed_decimal_example_2: "signed_decimal ''+.25''"
  by (simp add: signed_decimal_def strip_sign_def is_sign_def is_digit_def)

lemma exact_float_example_1: "py_float exact_ext ''-1.5'' = Some (- 3 / 2)"
  by (simp add: exact_ext_def exact_float_def unsigned_decimal_def is_digit_def digits_val_def
      digit_val_def)

lemma exact_float_example_2: "py_float exact_ext ''+.25'' = Some (1 / 4)"
  by (simp add: exact_ext_def exact_float_def unsigned_decimal_def is_digit_def digits_val_def
      digit_val_def)

lemma exact_round_example_1: "py_round3 exact_ext (- 3 / 2) = - 3 / 2"
  by (simp add: exact_ext_def)

lemma exact_round_example_2: "py_round3 exact_ext (1 / 4) = 1 / 4"
  by (simp add: exact_ext_def)

subsection \<open>The transform of a group\<close>

text \<open>
  Claim C9. A group with no \<open>transform\<close> attribute has the translation \<open>(0, 0)\<close>. A group
  whose \<open>transform\<close> is exactly \<open>translate(A,B)\<close>, with \<open>A\<close> and \<open>B\<close> signed decimals that
  \<open>float\<close> reads as \<open>a\<close> and \<open>b\<close>, has the translation \<open>(round(a, 3), round(b, 3))\<close>.
\<close>

theorem C9_transform_resolver:
  "(map_of (attrib grp) ''transform'' = None \<longrightarrow> get_group_transform E grp = Inr (0, 0)) \<and>
   (map_of (attrib grp) ''transform'' = Some (''translate('' @ A @ '','' @ B @ '')'') \<and>
      signed_decimal A \<and> signed_decimal B \<and> py_float E A = Some a \<and> py_float E B = Some b \<longrightarrow>
    get_group_transform E grp = Inr (py_round3 E a, py_round3 E b))"
proof (intro conjI impI)
  assume "map_of (attrib grp) ''transform'' = None"
  then show "get_group_transform E grp = Inr (0, 0)" by (simp add: get_group_transform_def)
next
  assume h: "map_of (attrib grp) ''transform'' = Some (''translate('' @ A @ '','' @ B @ '')'') \<and>
      signed_decimal A \<and> signed_decimal B \<and> py_float E A = Some a \<and> py_float E B = Some b"
  then have "match_translation (''translate('' @ A @ '','' @ B @ '')'' @ []) = Some (A, B)"
    by (intro match_translation_translate) simp_all
  then have m: "match_translation (''translate('' @ A @ '','' @ B @ '')'') = Some (A, B)" by simp
  from h have t: "map_of (attrib grp) ''transform'' = Some (''translate('' @ A @ '','' @ B @ '')'')"
    and fa: "py_float E A = Some a" and fb: "py_float E B = Some b" by simp_all
  show "get_group_transform E grp = Inr (py_round3 E a, py_round3 E b)"
    using m t fa fb by (simp add: get_group_transform_def float_s3_def bind_err_def)
qed

theorem C9_transform_resolver_witness:
  "get_group_transform exact_ext (Element group_el [] None []) = Inr (0, 0) \<and>
   get_group_transform exact_ext (Element group_el [(''transform'', ''translate(-1.5,+.25)'')] None [])
     = Inr (- 3 / 2, 1 / 4)"
  using C9_transform_resolver[where grp = "Element group_el [] None []" and E = exact_ext]
    C9_transform_resolver[where grp = "Element group_el [(''transform'', ''translate(-1.5,+.25)'')] None []"
      and A = "''-1.5''" and B = "''+.25''" and E = exact_ext and a = "- 3 / 2" and b = "1 / 4"]
    signed_decimal_example_1 signed_decimal_example_2 exact_float_example_1 exact_float_example_2
    exact_round_example_1 exact_round_example_2
  by simp

text \<open>
  Claim C2. A transform that is a translate followed by another function should be a
  failure of the resolver. The pattern has no anchor at its end, so the group
  \<open><g transform="translate(5,5) scale(2)">\<close> resolves to \<open>(5, 5)\<close>; and a point group with
  this transform is extracted, moved by \<open>(5, 5)\<close>, with no warning.
\<close>

theorem C2_translate_then_scale_is_accepted:
  "get_group_transform exact_ext (Element group_el [(''transform'', ''translate(5,5) scale(2)'')] None [])
     = Inr (5, 5) \<and>
   load_svg exact_ext chained_transform_doc = Inr (([(Some ''dock'', (5, 5))], [], [], []), [])"
  by code_simp

subsection \<open>Results of \<open>bind_err\<close> and of the line extraction\<close>

lemma bind_err_simps [simp]:
  "bind_err (Inl e) f = Inl e" "bind_err (Inr v) f = f v"
  by (simp_all add: bind_err_def)

lemma bind_err_eq_Inr:
  "bind_err m f = Inr y \<longleftrightarrow> (\<exists>v. m = Inr v \<and> f v = Inr y)"
  by (cases m) simp_all

lemma single_line_path:
  "length path_geom = 1 \<Longrightarrow> is_line (path_geom ! 0) \<Longrightarrow> \<exists>s e. path_geom = [Line s e]"
proof -
  assume l: "length path_geom = 1" and i: "is_line (path_geom ! 0)"
  from l obtain x where x: "path_geom = [x]" by (cases path_geom) auto
  with i obtain s e where "x = Line s e" by (cases x) auto
  with x show ?thesis by simp
qed

lemma extract_line_from_path_Inr:
  assumes "extract_line_from_path E path (Some tr) = Inr (a, b)"
  shows "\<exists>p d s e. path = Some p \<and> attr p ''d'' = Inr d \<and> parse_path E d = Inr [Line s e] \<and>
           a = place E tr s \<and> b = place E tr e"
proof -
  from assms obtain p where p: "path = Some p"
    by (cases path) (simp_all add: extract_line_from_path_def)
  from assms p obtain d where d: "attr p ''d'' = Inr d"
    by (cases "attr p ''d''") (simp_all add: extract_line_from_path_def)
  from assms p d obtain g where g: "parse_path E d = Inr g"
    by (cases "parse_path E d") (simp_all add: extract_line_from_path_def)
  from assms p d g have c: "length g = 1 \<and> is_line (g ! 0)"
    by (simp add: extract_line_from_path_def split: if_splits)
  then obtain s e where se: "g = [Line s e]" using single_line_path by blast
  from assms p d g se have "a = place E tr s \<and> b = place E tr e"
    by (simp add: extract_line_from_path_def)
  with p d g se show ?thesis by blast
qed

lemma not_all_lines_not_single_line:
  "\<not> list_all is_line segs \<Longrightarrow> \<not> (length segs = 1 \<and> is_line (segs ! 0))"
proof
  assume n: "\<not> list_all is_line segs" and "length segs = 1 \<and> is_line (segs ! 0)"
  then obtain s e where "segs = [Line s e]" using single_line_path by blast
  with n show False by simp
qed

lemma extract_line_from_path_not_single:
  assumes "attr p ''d'' = Inr d" and "parse_path E d = Inr segs"
    and "\<not> (length segs = 1 \<and> is_line (segs ! 0))"
  shows "extract_line_from_path E (Some p) (Some tr) = Inl RuntimeError"
  using assms by (simp add: extract_line_from_path_def Let_def)

lemma on_transform_error_Inr:
  "on_transform_error grp e mk continue = Inr y \<Longrightarrow> \<exists>t. continue (mk t) = Inr y"
  by (auto simp: on_transform_error_def bind_err_eq_Inr split: if_splits)

lemma poly_points_of_items:
  "poly_points_of E items = Inr pp \<Longrightarrow>
     list_all2 (\<lambda>item p. \<exists>xs ys. split_comma item = [xs, ys] \<and>
        float_s3 E xs = Inr (fst p) \<and> float_s3 E ys = Inr (snd p)) items pp"
proof (induction items arbitrary: pp)
  case Nil
  then show ?case by simp
next
  case (Cons item items)
  from Cons.prems obtain xs ys where s: "split_comma item = [xs, ys]"
    by (auto split: list.splits)
  from Cons.prems s obtain x where x: "float_s3 E xs = Inr x"
    by (cases "float_s3 E xs") simp_all
  from Cons.prems s x obtain y where y: "float_s3 E ys = Inr y"
    by (cases "float_s3 E ys") simp_all
  from Cons.prems s x y obtain ps where ps: "poly_points_of E items = Inr ps"
    by (cases "poly_points_of E items") simp_all
  from Cons.prems s x y ps have pp: "pp = (x, y) # ps" by simp
  from Cons.IH[OF ps] s x y pp show ?case by simp
qed

lemma attr_coord_Inr:
  "attr el kx = Inr sx \<Longrightarrow> attr el ky = Inr sy \<Longrightarrow> py_float E sx = Some x \<Longrightarrow> py_float E sy = Some y \<Longrightarrow>
     attr_coord E el kx ky (dx, dy) = Inr (py_round3 E x + dx, py_round3 E y + dy)"
  by (simp add: attr_coord_def float_s3_def)

subsection \<open>Doors\<close>

text \<open>
  Claim C10. When a door group is accepted and its transform resolves to \<open>(dx, dy)\<close>, the
  path of the group parses to a single line, and the stored threshold is the start and the
  end of that line, each coordinate rounded to 3 decimals and then moved by \<open>dx\<close> or
  \<open>dy\<close>: the translation applies to the threshold, not only to the approach points.
\<close>

theorem C10_door_threshold_is_translated:
  assumes "door_group_body E door_group (doors, warns) = Inr (doors @ [(name, (t0, t1), approach)], warns')"
    and "get_group_transform E door_group = Inr (dx, dy)"
  shows "\<exists>p d s e. find_child path_el door_group = Some p \<and> attr p ''d'' = Inr d \<and>
           parse_path E d = Inr [Line s e] \<and>
           t0 = (py_round3 E (fst s) + dx, py_round3 E (snd s) + dy) \<and>
           t1 = (py_round3 E (fst e) + dx, py_round3 E (snd e) + dy)"
proof -
  let ?body = "door_group_body E door_group (doors, warns)"
  note b = assms(1) and t = assms(2)
  obtain label where l: "get_text_from_group door_group = Some label"
    using b by (cases "get_text_from_group door_group") (simp_all add: door_group_body_def)
  have c: "length (findall_child circle_el door_group) = 2"
  proof (rule ccontr)
    assume "length (findall_child circle_el door_group) \<noteq> 2"
    with b l t show False by (simp add: door_group_body_def Let_def)
  qed
  obtain aps where a: "approach_points_of E (dx, dy) (findall_child circle_el door_group) = Inr aps"
    using b l t c
    by (cases "approach_points_of E (dx, dy) (findall_child circle_el door_group)")
      (simp_all add: door_group_body_def Let_def)
  have "extract_line_from_path E (find_child path_el door_group) (Some (dx, dy)) = Inr (t0, t1)"
  proof (cases "extract_line_from_path E (find_child path_el door_group) (Some (dx, dy))")
    case (Inl e)
    with b l t c a show ?thesis
      by (cases "e = RuntimeError") (simp_all add: door_group_body_def Let_def)
  next
    case (Inr door_line)
    with b l t c a show ?thesis by (simp add: door_group_body_def Let_def)
  qed
  from extract_line_from_path_Inr[OF this] show ?thesis
    by (auto simp: place_def float_s3_num_def)
qed

theorem C10_door_threshold_is_translated_witness:
  "door_group_body exact_ext door_group_example ([], [])
     = Inr ([(Some ''door1'', ((5, 5), (5, 10)), [(3, 7), (7, 7)])], []) \<and>
   (\<exists>p d s e. find_child path_el door_group_example = Some p \<and> attr p ''d'' = Inr d \<and>
      parse_path exact_ext d = Inr [Line s e] \<and>
      ((5, 5) :: rat \<times> rat) = (py_round3 exact_ext (fst s) + 5, py_round3 exact_ext (snd s) + 5) \<and>
      ((5, 10) :: rat \<times> rat) = (py_round3 exact_ext (fst e) + 5, py_round3 exact_ext (snd e) + 5))"
proof -
  have b: "door_group_body exact_ext door_group_example ([], [])
     = Inr ([] @ [(Some ''door1'', ((5, 5), (5, 10)), [(3, 7), (7, 7)])], [])"
    by code_simp
  have t: "get_group_transform exact_ext door_group_example = Inr (5, 5)"
    by code_simp
  from C10_door_threshold_is_translated[OF b t] b show ?thesis by simp
qed

subsection \<open>Groups without a label\<close>

text \<open>
  Claim C5. A point group or a door group with neither a \<open>tspan\<close> nor a \<open>text\<close> should be
  skipped with a warning, the parse going on. In the code only \<open>process_paths\<close> tests
  the label for \<open>None\<close>; the loop over point groups and \<open>process_door_groups\<close> read
  \<open>.text\<close> of \<open>None\<close>, and the \<open>AttributeError\<close> ends the whole parse.
\<close>

theorem C5_unlabelled_group_aborts_the_parse:
  "load_svg exact_ext unlabelled_point_doc = Inl AttributeError \<and>
   load_svg exact_ext unlabelled_door_doc = Inl AttributeError \<and>
   load_svg exact_ext unlabelled_path_doc = Inr (([], [], [], []), [PathGroupNoLabel])"
  by code_simp

subsection \<open>Shapes taken by both strategies\<close>

lemma point_group_body_marked:
  assumes m: "first_circle_marked grp"
    and b: "point_group_body E grp (points, warns) = Inr (points', warns')"
  shows "points' = points"
proof -
  from m obtain circle where c: "find_desc circle_el grp = Some circle"
    and k: "map_of (attrib circle) ''class'' \<noteq> None"
    by (cases "find_desc circle_el grp") (simp_all add: first_circle_marked_def)
  obtain label where l: "get_text_from_group grp = Some label"
    using b by (cases "get_text_from_group grp") (simp_all add: point_group_body_def)
  show ?thesis
  proof (cases "get_group_transform E grp")
    case (Inl e)
    with b l have "on_transform_error grp e (PointGroupComplexTransform (text_of label))
        (\<lambda>w. Inr (points, warns @ [w])) = Inr (points', warns')"
      by (simp add: point_group_body_def Let_def)
    from on_transform_error_Inr[OF this] show ?thesis by auto
  next
    case (Inr tr)
    with b l c k show ?thesis by (simp add: point_group_body_def Let_def)
  qed
qed

lemma on_transform_error_other_warns:
  assumes "on_transform_error grp e mk (\<lambda>w. Inr (points, warns @ [w])) = Inr (points', warns')"
  shows "\<exists>warns''. on_transform_error grp e mk (\<lambda>w. Inr (points, other @ [w])) = Inr (points', warns'')"
proof -
  from assms have e: "e = RuntimeError"
    by (cases "e = RuntimeError") (simp_all add: on_transform_error_def)
  from assms e obtain t where t: "attr grp ''transform'' = Inr t"
    by (cases "attr grp ''transform''") (simp_all add: on_transform_error_def)
  from assms e t have "points' = points" by (simp add: on_transform_error_def)
  with e t show ?thesis by (simp add: on_transform_error_def)
qed

lemma point_group_body_other_warns:
  assumes b: "point_group_body E grp (points, warns) = Inr (points', warns')"
  shows "\<exists>warns''. point_group_body E grp (points, other) = Inr (points', warns'')"
proof -
  obtain label where l: "get_text_from_group grp = Some label"
    using b by (cases "get_text_from_group grp") (simp_all add: point_group_body_def)
  show ?thesis
  proof (cases "get_group_transform E grp")
    case (Inl e)
    with b l have "on_transform_error grp e (PointGroupComplexTransform (text_of label))
        (\<lambda>w. Inr (points, warns @ [w])) = Inr (points', warns')"
      by (simp add: point_group_body_def Let_def)
    from on_transform_error_other_warns[OF this, of other] Inl l show ?thesis
      by (simp add: point_group_body_def Let_def)
  next
    case (Inr tr)
    from b l Inr obtain circle where c: "find_desc circle_el grp = Some circle"
      by (cases "find_desc circle_el grp") (simp_all add: point_group_body_def Let_def)
    show ?thesis
    proof (cases "map_of (attrib circle) ''class'' \<noteq> None")
      case True
      with b l Inr c show ?thesis by (simp add: point_group_body_def Let_def)
    next
      case False
      from b l Inr c False obtain p where p: "attr_coord E circle ''cx'' ''cy'' tr = Inr p"
        by (cases "attr_coord E circle ''cx'' ''cy'' tr") (simp_all add: point_group_body_def Let_def)
      from b l Inr c False p show ?thesis by (simp add: point_group_body_def Let_def)
    qed
  qed
qed

lemma for_each_point_groups_unmarked:
  "for_each (point_group_body E) groups (points, warns) = Inr (points', warns') \<Longrightarrow>
     \<exists>warns''. for_each (point_group_body E) (filter (\<lambda>g. \<not> first_circle_marked g) groups) (points, other)
        = Inr (points', warns'')"
proof (induction groups arbitrary: points warns other)
  case Nil
  then show ?case by simp
next
  case (Cons g groups)
  from Cons.prems obtain p1 w1 where b: "point_group_body E g (points, warns) = Inr (p1, w1)"
    and r: "for_each (point_group_body E) groups (p1, w1) = Inr (points', warns')"
    by (cases "point_group_body E g (points, warns)") auto
  show ?case
  proof (cases "first_circle_marked g")
    case True
    from point_group_body_marked[OF True b] have "p1 = points" .
    with Cons.IH[OF r, of other] True show ?thesis by simp
  next
    case False
    from point_group_body_other_warns[OF b, of other] obtain w2 where
      b2: "point_group_body E g (points, other) = Inr (p1, w2)" ..
    from Cons.IH[OF r, of w2] obtain w3 where
      "for_each (point_group_body E) (filter (\<lambda>g. \<not> first_circle_marked g) groups) (p1, w2) = Inr (points', w3)" ..
    with False b2 show ?thesis by simp
  qed
qed

text \<open>
  Claim C6, amended. A point group whose first circle carries a \<open>class\<close> attribute adds
  nothing to the points of the heuristic strategy; so the points this strategy returns
  are those it returns on the groups whose first circle has no \<open>class\<close> attribute. The
  door groups are not tested for the marker.
\<close>

theorem C6_marked_circles_add_no_heuristic_point:
  "(first_circle_marked grp \<and> point_group_body E grp (points, warns) = Inr (points', warns') \<longrightarrow>
      points' = points) \<and>
   (process_point_groups E point_groups = Inr (extra_points, ws) \<longrightarrow>
      (\<exists>ws'. process_point_groups E (filter (\<lambda>g. \<not> first_circle_marked g) point_groups)
         = Inr (extra_points, ws')))"
proof (intro conjI impI)
  assume "first_circle_marked grp \<and> point_group_body E grp (points, warns) = Inr (points', warns')"
  then show "points' = points" using point_group_body_marked by blast
next
  assume "process_point_groups E point_groups = Inr (extra_points, ws)"
  then have "for_each (point_group_body E) point_groups ([], []) = Inr (extra_points, ws)"
    by (simp add: process_point_groups_def)
  from for_each_point_groups_unmarked[OF this, of "[]"]
  show "\<exists>ws'. process_point_groups E (filter (\<lambda>g. \<not> first_circle_marked g) point_groups)
         = Inr (extra_points, ws')"
    by (simp add: process_point_groups_def)
qed

theorem C6_marked_circles_add_no_heuristic_point_witness:
  "first_circle_marked charger_group \<and>
   point_group_body exact_ext charger_group ([], []) = Inr ([], []) \<and>
   process_point_groups exact_ext [charger_group, dock_group] = Inr ([(Some ''dock'', (5, 5))], []) \<and>
   (\<exists>ws'. process_point_groups exact_ext (filter (\<lambda>g. \<not> first_circle_marked g) [charger_group, dock_group])
      = Inr ([(Some ''dock'', (5, 5))], ws'))"
proof -
  have m: "first_circle_marked charger_group" by code_simp
  have b: "point_group_body exact_ext charger_group ([], []) = Inr ([], [])" by code_simp
  have p: "process_point_groups exact_ext [charger_group, dock_group] = Inr ([(Some ''dock'', (5, 5))], [])"
    by code_simp
  from C6_marked_circles_add_no_heuristic_point[THEN conjunct2, rule_format, OF p]
  have 2: "\<exists>ws'. process_point_groups exact_ext (filter (\<lambda>g. \<not> first_circle_marked g) [charger_group, dock_group])
      = Inr ([(Some ''dock'', (5, 5))], ws')" .
  from C6_marked_circles_add_no_heuristic_point[THEN conjunct1, rule_format,
      of charger_group exact_ext "[]" "[]" "[]" "[]"] m b
  have 1: "([] :: rat named_point list) = []" by simp
  from m b p 2 show ?thesis by (intro conjI)
qed

text \<open>
  The claim as stated fails on a door group: its circle with the marker of the annotation
  tool is a point of the tagged strategy and an approach point of the door.
\<close>

theorem C6_marked_circle_in_a_door_group_counterexample:
  "load_svg exact_ext marked_circle_door_doc
     = Inr (([(Some ''door1'', (- 2, 2))], [], [],
             [(Some ''door1'', ((0, 0), (0, 5)), [(- 2, 2), (2, 2)])]), [])"
  by code_simp

subsection \<open>The consistency check\<close>

lemma float_of_readable:
  "py_float E s \<noteq> None \<Longrightarrow> \<exists>v. float_of E s = Inr v"
  by (auto simp: float_of_def)

lemma dim_match_returns:
  assumes "readable_pair E el ''width'' ''height''"
  shows "\<exists>ps'. dim_match E (Some el) w h ps = Inr ps' \<and> length ps' \<le> Suc (length ps)"
proof (cases "map_of (attrib el) ''width''")
  case None
  then show ?thesis by (simp add: dim_match_def)
next
  case (Some sw)
  with assms have fw: "py_float E sw \<noteq> None"
    and c: "(case map_of (attrib el) ''height'' of None \<Rightarrow> False | Some s2 \<Rightarrow> py_float E s2 \<noteq> None)"
    by (simp_all add: readable_pair_def)
  from c obtain sh where sh: "map_of (attrib el) ''height'' = Some sh" and fh: "py_float E sh \<noteq> None"
    by (cases "map_of (attrib el) ''height''") simp_all
  from float_of_readable[OF fw] obtain vw where v1: "float_of E sw = Inr vw" ..
  from float_of_readable[OF fh] obtain vh where v2: "float_of E sh = Inr vh" ..
  note v = v1 v2
  from Some sh v show ?thesis by (simp add: dim_match_def attr_def)
qed

lemma ori_is_zero_returns:
  assumes "readable_pair E el ''x'' ''y''"
  shows "\<exists>ps'. ori_is_zero E (Some el) ps = Inr ps' \<and> length ps' \<le> Suc (length ps)"
proof (cases "map_of (attrib el) ''x''")
  case None
  then show ?thesis by (simp add: ori_is_zero_def)
next
  case (Some sx)
  with assms have fx: "py_float E sx \<noteq> None"
    and c: "(case map_of (attrib el) ''y'' of None \<Rightarrow> False | Some s2 \<Rightarrow> py_float E s2 \<noteq> None)"
    by (simp_all add: readable_pair_def)
  from c obtain sy where sy: "map_of (attrib el) ''y'' = Some sy" and fy: "py_float E sy \<noteq> None"
    by (cases "map_of (attrib el) ''y''") simp_all
  from float_of_readable[OF fx] obtain vx where v1: "float_of E sx = Inr vx" ..
  from float_of_readable[OF fy] obtain vy where v2: "float_of E sy = Inr vy" ..
  note v = v1 v2
  from Some sy v show ?thesis by (simp add: ori_is_zero_def attr_def)
qed

text \<open>
  Claim C4, amended. When the root has a \<open>viewBox\<close> attribute and an \<open>image\<close> child, and
  each attribute the check converts is a number that comes with its partner (\<open>height\<close>
  with \<open>width\<close>, \<open>y\<close> with \<open>x\<close>), the check returns a list of at most four messages and
  raises nothing. The check of the document's size skips itself when the root has no
  \<open>width\<close>, the check of the origin when the image has no \<open>x\<close>, the check of the image's
  size when the image has no \<open>width\<close>. The check of the \<open>viewBox\<close> never skips itself.
\<close>

theorem C4_check_returns_when_it_can_read_the_document:
  fixes E :: "'f ext"
  assumes vb: "map_of (attrib tree) ''viewBox'' = Some viewbox"
    and im: "find_child image_el tree = Some img"
    and sd: "readable_pair E tree ''width'' ''height''"
    and io: "readable_pair E img ''x'' ''y''"
    and idm: "readable_pair E img ''width'' ''height''"
  shows "(\<exists>problems. check_svg_valid E tree width height = Inr problems \<and> length problems \<le> 4) \<and>
         (map_of (attrib tree) ''width'' = None \<longrightarrow> dim_match E (Some tree) width height ps = Inr ps) \<and>
         (map_of (attrib img) ''x'' = None \<longrightarrow> ori_is_zero E (Some img) ps = Inr ps) \<and>
         (map_of (attrib img) ''width'' = None \<longrightarrow> dim_match E (Some img) width height ps = Inr ps)"
proof (intro conjI impI)
  let ?target = "''0 0 '' @ str_nat width @ '' '' @ str_nat height"
  let ?p0 = "if viewbox \<noteq> ?target then [ViewboxProblem viewbox ?target] else ([] :: 'f problem list)"
  have l0: "length ?p0 \<le> 1" by simp
  from dim_match_returns[OF sd] obtain p1 where
    1: "dim_match E (Some tree) width height ?p0 = Inr p1" and l1: "length p1 \<le> Suc (length ?p0)"
    by blast
  from ori_is_zero_returns[OF io] obtain p2 where
    2: "ori_is_zero E (Some img) p1 = Inr p2" and l2: "length p2 \<le> Suc (length p1)"
    by blast
  from dim_match_returns[OF idm] obtain p3 where
    3: "dim_match E (Some img) width height p2 = Inr p3" and l3: "length p3 \<le> Suc (length p2)"
    by blast
  have "bind_err (attr tree ''viewBox'') (\<lambda>viewbox.
        let target_viewbox = ''0 0 '' @ str_nat width @ '' '' @ str_nat height;
            problems = (if viewbox \<noteq> target_viewbox then [ViewboxProblem viewbox target_viewbox] else [])
        in
        bind_err (dim_match E (Some tree) width height problems) (\<lambda>problems.
        bind_err (ori_is_zero E (Some img) problems) (\<lambda>problems.
        dim_match E (Some img) width height problems))) = Inr p3"
    unfolding attr_def vb option.case bind_err_simps Let_def 1 2 3 ..
  then have "check_svg_valid E tree width height = Inr p3"
    unfolding check_svg_valid_def Let_def im .
  moreover from l0 l1 l2 l3 have "length p3 \<le> 4" by simp
  ultimately show "\<exists>problems. check_svg_valid E tree width height = Inr problems \<and> length problems \<le> 4"
    by blast
next
  assume "map_of (attrib tree) ''width'' = None"
  then show "dim_match E (Some tree) width height ps = Inr ps" by (simp add: dim_match_def)
next
  assume "map_of (attrib img) ''x'' = None"
  then show "ori_is_zero E (Some img) ps = Inr ps" by (simp add: ori_is_zero_def)
next
  assume "map_of (attrib img) ''width'' = None"
  then show "dim_match E (Some img) width height ps = Inr ps" by (simp add: dim_match_def)
qed

theorem C4_check_returns_when_it_can_read_the_document_witness:
  "(\<exists>problems. check_svg_valid exact_ext map_doc 100 50 = Inr problems \<and> length problems \<le> 4) \<and>
   check_svg_valid exact_ext map_doc 100 50 = Inr [DimensionProblem 100 60 100 50] \<and>
   dim_match exact_ext (Some map_doc) 100 50 [] = Inr []"
proof -
  have vb: "map_of (attrib map_doc) ''viewBox'' = Some ''0 0 100 50''" by code_simp
  have img: "find_child image_el map_doc = Some map_image" by code_simp
  have sd: "readable_pair exact_ext map_doc ''width'' ''height''" by code_simp
  have io: "readable_pair exact_ext map_image ''x'' ''y''" by code_simp
  have idm: "readable_pair exact_ext map_image ''width'' ''height''" by code_simp
  have w: "map_of (attrib map_doc) ''width'' = None" by code_simp
  have v: "check_svg_valid exact_ext map_doc 100 50 = Inr [DimensionProblem 100 60 100 50]"
    by code_simp
  note c = C4_check_returns_when_it_can_read_the_document[OF vb img sd io idm, where width = 100
      and height = 50 and ps = "[]"]
  from c have 1: "\<exists>problems. check_svg_valid exact_ext map_doc 100 50 = Inr problems \<and> length problems \<le> 4"
    by (rule conjunct1)
  from c w have 2: "dim_match exact_ext (Some map_doc) 100 50 [] = Inr []" by blast
  from 1 v 2 show ?thesis by blast
qed

text \<open>The claim as stated fails: a root with no \<open>viewBox\<close> attribute is a \<open>KeyError\<close>.\<close>

theorem C4_no_viewbox_counterexample:
  "check_svg_valid exact_ext no_viewbox_doc 100 50 = Inl (KeyError ''viewBox'')"
  by code_simp

subsection \<open>Projection\<close>

lemma for_each_invariant:
  assumes step: "\<And>x s s'. P s \<Longrightarrow> body x s = Inr s' \<Longrightarrow> P s'"
  shows "P s \<Longrightarrow> for_each body xs s = Inr s' \<Longrightarrow> P s'"
proof (induction xs arbitrary: s)
  case Nil
  then show ?case by simp
next
  case (Cons x xs)
  from Cons.prems(2) obtain s1 where b: "body x s = Inr s1" and r: "for_each body xs s1 = Inr s'"
    by (cases "body x s") auto
  from step[OF Cons.prems(1) b] have "P s1" .
  from Cons.IH[OF this r] show ?case .
qed

lemma approach_points_of_length:
  "approach_points_of E tr circles = Inr ps \<Longrightarrow> length ps = length circles"
proof (induction circles arbitrary: ps)
  case Nil
  then show ?case by simp
next
  case (Cons c circles)
  from Cons.prems obtain p where p: "attr_coord E c ''cx'' ''cy'' tr = Inr p"
    by (cases "attr_coord E c ''cx'' ''cy'' tr") simp_all
  from Cons.prems p obtain qs where q: "approach_points_of E tr circles = Inr qs"
    by (cases "approach_points_of E tr circles") simp_all
  from Cons.prems p q have "ps = p # qs" by simp
  with Cons.IH[OF q] show ?case by simp
qed

lemma door_group_body_two_approach_points:
  assumes inv: "list_all two_approach_points (fst s)"
    and b: "door_group_body E door_group s = Inr s'"
  shows "list_all two_approach_points (fst s')"
proof -
  obtain doors warns where s: "s = (doors, warns)" by (cases s)
  obtain label where l: "get_text_from_group door_group = Some label"
    using b s by (cases "get_text_from_group door_group") (simp_all add: door_group_body_def)
  show ?thesis
  proof (cases "get_group_transform E door_group")
    case (Inl e)
    with b l s have "on_transform_error door_group e (DoorGroupComplexTransform (text_of label))
        (\<lambda>w. Inr (doors, warns @ [w])) = Inr s'"
      by (simp add: door_group_body_def Let_def)
    from on_transform_error_Inr[OF this] inv s show ?thesis by auto
  next
    case (Inr tr)
    show ?thesis
    proof (cases "length (findall_child circle_el door_group) = 2")
      case False
      with b l s Inr inv show ?thesis by (auto simp: door_group_body_def Let_def)
    next
      case True
      from b l s Inr True obtain aps where
        a: "approach_points_of E tr (findall_child circle_el door_group) = Inr aps"
        by (cases "approach_points_of E tr (findall_child circle_el door_group)")
          (simp_all add: door_group_body_def Let_def)
      from approach_points_of_length[OF a] True have two: "length aps = 2" by simp
      show ?thesis
      proof (cases "extract_line_from_path E (find_child path_el door_group) (Some tr)")
        case (Inl e)
        with b l s Inr True a inv show ?thesis
          by (cases "e = RuntimeError") (auto simp: door_group_body_def Let_def)
      next
        case (Inr door_line)
        with b l s \<open>get_group_transform E door_group = Inr tr\<close> True a inv two show ?thesis
          by (auto simp: door_group_body_def Let_def two_approach_points_def)
      qed
    qed
  qed
qed

lemma process_door_groups_two_approach_points:
  assumes "process_door_groups E door_groups = Inr (doors, warns)"
  shows "list_all two_approach_points doors"
proof -
  have "list_all two_approach_points (fst (doors, warns))"
  proof (rule for_each_invariant[where P = "\<lambda>s. list_all two_approach_points (fst s)"
        and body = "door_group_body E" and xs = door_groups and s = "([], [])"])
    show "list_all two_approach_points (fst s')"
      if "list_all two_approach_points (fst s)" and "door_group_body E x s = Inr s'" for x s s'
      using that by (rule door_group_body_two_approach_points)
    show "list_all two_approach_points (fst ([], []))" by simp
    show "for_each (door_group_body E) door_groups ([], []) = Inr (doors, warns)"
      using assms by (simp add: process_door_groups_def)
  qed
  then show ?thesis by simp
qed

lemma load_svg_two_approach_points:
  assumes "load_svg E tree = Inr ((points, poses, regions, doors), warns)"
  shows "list_all two_approach_points doors"
proof -
  from assms obtain w4 where "process_door_groups E
      (filter (\<lambda>g. length (children g) = 4) (findall_groups_with circle_el tree)) = Inr (doors, w4)"
    by (auto simp: load_svg_def Let_def bind_err_eq_Inr)
  then show ?thesis by (rule process_door_groups_two_approach_points)
qed

lemma transform_doors_project:
  "list_all two_approach_points doors \<Longrightarrow> transform_doors c doors = Inr (map (project_door c) doors)"
proof (induction doors)
  case Nil
  then show ?case by simp
next
  case (Cons door doors)
  obtain name d_p1 d_p2 approach where d: "door = (name, (d_p1, d_p2), approach)"
    by (cases door) auto
  from Cons.prems d have "length approach = 2" by (simp add: two_approach_points_def)
  then obtain p1 p2 where a: "approach = [p1, p2]"
    by (cases approach; cases "tl approach") auto
  from Cons d a show ?case by (simp add: project_door_def)
qed

lemma transform_to_map_coords_project:
  assumes "list_all two_approach_points doors"
  shows "transform_to_map_coords conv map_info (points, poses, regions, doors)
           = Inr (project (conv map_info) (points, poses, regions, doors))"
  using transform_doors_project[OF assms, of "conv map_info"]
  by (simp add: transform_to_map_coords_def project_def Let_def)

lemma project_keeps_structure:
  "project c (points, poses, regions, doors) = (points', poses', regions', doors') \<Longrightarrow>
     map fst points' = map fst points \<and> map fst poses' = map fst poses \<and>
     map fst regions' = map fst regions \<and>
     map (\<lambda>r. length (snd r)) regions' = map (\<lambda>r. length (snd r)) regions \<and>
     map fst doors' = map fst doors \<and>
     map (\<lambda>d. length (snd (snd d))) doors' = map (\<lambda>d. length (snd (snd d))) doors"
  by (auto simp: project_def project_door_def split_def)

text \<open>
  Claim C8. Loading with projection gives what loading in pixel coordinates gives, with
  every point of the four collections (points, both ends of poses, vertices of regions,
  thresholds and approach points of doors) replaced by its conversion: the same
  exception or the same warnings, and the projection of the same collections. A
  projection keeps the names, the number and order of the entries, the number of vertices
  of each region and the approach points of each door.
\<close>

theorem C8_projection_changes_coordinates_only:
  "load_map_from_yaml E conv map_metadata width height False svg_data =
     (case load_map_from_yaml E conv map_metadata width height True svg_data of
        Inl e \<Rightarrow> Inl e
      | Inr (annotations, warns) \<Rightarrow> Inr (project (conv map_metadata) annotations, warns)) \<and>
   (project c (points, poses, regions, doors) = (points', poses', regions', doors') \<longrightarrow>
     map fst points' = map fst points \<and> map fst poses' = map fst poses \<and>
     map fst regions' = map fst regions \<and>
     map (\<lambda>r. length (snd r)) regions' = map (\<lambda>r. length (snd r)) regions \<and>
     map fst doors' = map fst doors \<and>
     map (\<lambda>d. length (snd (snd d))) doors' = map (\<lambda>d. length (snd (snd d))) doors)"
proof (intro conjI impI)
  show "load_map_from_yaml E conv map_metadata width height False svg_data =
     (case load_map_from_yaml E conv map_metadata width height True svg_data of
        Inl e \<Rightarrow> Inl e
      | Inr (annotations, warns) \<Rightarrow> Inr (project (conv map_metadata) annotations, warns))"
  proof (cases "check_svg_valid E svg_data width height")
    case (Inl e)
    then show ?thesis by (simp add: load_map_from_yaml_def)
  next
    case (Inr svg_problems)
    show ?thesis
    proof (cases "load_svg E svg_data")
      case (Inl e)
      with Inr show ?thesis by (simp add: load_map_from_yaml_def)
    next
      case r: (Inr result)
      obtain pts pss rgs drs warns where
        res: "result = ((pts, pss, rgs, drs), warns)"
        by (cases result) auto
      from r res have "list_all two_approach_points drs"
        using load_svg_two_approach_points by simp
      from transform_to_map_coords_project[OF this, of conv map_metadata pts pss rgs]
        Inr r res show ?thesis
        by (simp add: load_map_from_yaml_def)
    qed
  qed
next
  assume "project c (points, poses, regions, doors) = (points', poses', regions', doors')"
  then have k: "map fst points' = map fst points \<and> map fst poses' = map fst poses \<and>
     map fst regions' = map fst regions \<and>
     map (\<lambda>r. length (snd r)) regions' = map (\<lambda>r. length (snd r)) regions \<and>
     map fst doors' = map fst doors \<and>
     map (\<lambda>d. length (snd (snd d))) doors' = map (\<lambda>d. length (snd (snd d))) doors"
    by (rule project_keeps_structure)
  from k show "map fst points' = map fst points" by simp
  from k show "map fst poses' = map fst poses" by simp
  from k show "map fst regions' = map fst regions" by simp
  from k show "map (\<lambda>r. length (snd r)) regions' = map (\<lambda>r. length (snd r)) regions" by simp
  from k show "map fst doors' = map fst doors" by simp
  from k show "map (\<lambda>d. length (snd (snd d))) doors' = map (\<lambda>d. length (snd (snd d))) doors" by simp
qed

theorem C8_projection_changes_coordinates_only_witness:
  "load_map_from_yaml exact_ext example_conv 2 100 50 True door_map_doc
     = Inr (([(Some ''charger'', (15, 25))], [], [],
             [(Some ''door1'', ((5, 5), (5, 10)), [(3, 7), (7, 7)])]),
            [SvgProblem (DimensionProblem 100 60 100 50)]) \<and>
   load_map_from_yaml exact_ext example_conv 2 100 50 False door_map_doc
     = Inr (([(Some ''charger'', (30, 50))], [], [],
             [(Some ''door1'', ((10, 90), (10, 80)), [(6, 86), (14, 86)])]),
            [SvgProblem (DimensionProblem 100 60 100 50)])"
proof -
  have raw: "load_map_from_yaml exact_ext example_conv 2 100 50 True door_map_doc
     = Inr (([(Some ''charger'', (15, 25))], [], [],
             [(Some ''door1'', ((5, 5), (5, 10)), [(3, 7), (7, 7)])]),
            [SvgProblem (DimensionProblem 100 60 100 50)])"
    by code_simp
  have p: "project (example_conv 2) ([(Some ''charger'', (15, 25))], [], [],
             [(Some ''door1'', ((5, 5), (5, 10)), [(3, 7), (7, 7)])])
      = ([(Some ''charger'', (30, 50))], [], [],
             [(Some ''door1'', ((10, 90), (10, 80)), [(6, 86), (14, 86)])])"
    by code_simp
  from C8_projection_changes_coordinates_only[THEN conjunct1, of exact_ext example_conv 2 100 50 door_map_doc]
  have "load_map_from_yaml exact_ext example_conv 2 100 50 False door_map_doc
     = Inr (([(Some ''charger'', (30, 50))], [], [],
             [(Some ''door1'', ((10, 90), (10, 80)), [(6, 86), (14, 86)])]),
            [SvgProblem (DimensionProblem 100 60 100 50)])"
    by (simp only: raw sum.case prod.case p)
  with raw show ?thesis by (intro conjI)
qed

subsection \<open>Paths\<close>

text \<open>
  Claim C3, amended. For a path group (two children) whose path data contains a segment
  that is not a line: when the group has a label and its transform resolves, the body of
  the loop returns, adds no pose and no region, and warns that the path could not be
  parsed; and whenever the body returns, it has added no pose and no region and has
  emitted exactly one warning. (A path with no segment is not covered: see the
  counterexample.)
\<close>

theorem C3_path_with_a_curve_is_skipped:
  assumes two: "length (children grp) = 2"
    and p: "find_desc path_el grp = Some p" and d: "attr p ''d'' = Inr d"
    and g: "parse_path E d = Inr segs" and n: "\<not> list_all is_line segs"
  shows "(get_text_from_group grp = Some label \<and> get_group_transform E grp = Inr tr \<longrightarrow>
            path_group_body E grp (poses, regions, warns, translate)
              = Inr (poses, regions, warns @ [PathUnparseable (text_of label)], tr)) \<and>
         (path_group_body E grp (poses, regions, warns, translate)
              = Inr (poses', regions', warns', translate') \<longrightarrow>
            poses' = poses \<and> regions' = regions \<and> (\<exists>w. warns' = warns @ [w]))"
proof -
  have x: "extract_line_from_path E (Some p) (Some t) = Inl RuntimeError" for t
    using extract_line_from_path_not_single[OF d g not_all_lines_not_single_line[OF n]] .
  have main: "path_group_body E grp (poses, regions, warns, translate)
      = Inr (poses, regions, warns @ [PathUnparseable (text_of l)], t)"
    if "get_text_from_group grp = Some l" and "get_group_transform E grp = Inr t" for l t
    using that two p d g n x[of t] by (simp add: path_group_body_def Let_def)
  have rest: "poses' = poses \<and> regions' = regions \<and> (\<exists>w. warns' = warns @ [w])"
    if b: "path_group_body E grp (poses, regions, warns, translate)
        = Inr (poses', regions', warns', translate')"
  proof (cases "get_text_from_group grp")
    case None
    with b two show ?thesis by (auto simp: path_group_body_def Let_def)
  next
    case (Some l)
    show ?thesis
    proof (cases "get_group_transform E grp")
      case (Inl e)
      with b two Some have "on_transform_error grp e (PathGroupComplexTransform (text_of l))
          (\<lambda>w. Inr (poses, regions, warns @ [w], (0, 0))) = Inr (poses', regions', warns', translate')"
        by (simp add: path_group_body_def Let_def)
      from on_transform_error_Inr[OF this] show ?thesis by auto
    next
      case (Inr t)
      from main[OF Some Inr] b show ?thesis by simp
    qed
  qed
  from main rest show ?thesis by blast
qed

theorem C3_path_with_a_curve_is_skipped_witness:
  "path_group_body exact_ext curve_path_group ([], [], [], (0, 0))
     = Inr ([], [], [PathUnparseable (Some ''curve'')], (0, 0))"
proof -
  have two: "length (children curve_path_group) = 2" by code_simp
  have p: "find_desc path_el curve_path_group = Some curve_path" by code_simp
  have d: "attr curve_path ''d'' = Inr ''M0,0 C1,1 2,2 3,3''" by code_simp
  have g: "parse_path exact_ext ''M0,0 C1,1 2,2 3,3'' = Inr [CubicBezier (0, 0) (1, 1) (2, 2) (3, 3)]"
    by code_simp
  have n: "\<not> list_all is_line [CubicBezier (0, 0) (1, 1) (2, 2) (3 :: rat, 3 :: rat)]" by simp
  have l: "get_text_from_group curve_path_group = Some (Element text_el [] (Some ''curve'') [])"
    by code_simp
  have t: "get_group_transform exact_ext curve_path_group = Inr (0, 0)" by code_simp
  from C3_path_with_a_curve_is_skipped[OF two p d g n,
      where label = "Element text_el [] (Some ''curve'') []" and tr = "(0, 0)"
        and poses = "[]" and regions = "[]" and warns = "[]" and translate = "(0, 0)"] l t
  show ?thesis by simp
qed

text \<open>
  The claim as stated fails on a path with no segment: \<open>all\<close> of an empty sequence is
  true, so the path \<open>d="M0,0"\<close> becomes a region with no vertex, with no warning.
\<close>

theorem C3_zero_segments_counterexample:
  "parse_path exact_ext ''M0,0'' = Inr [] \<and>
   load_svg exact_ext empty_path_doc = Inr (([], [], [(Some ''empty'', [])], []), [])"
  by code_simp

subsection \<open>Regions\<close>

text \<open>
  What the two loops store for a region: the rounded points of a tagged polygon, or the
  segments of a path whose segments are all lines and are not exactly one.
\<close>

lemma for_each_invariant_mem:
  assumes step: "\<And>x s s'. x \<in> set xs \<Longrightarrow> P s \<Longrightarrow> body x s = Inr s' \<Longrightarrow> P s'"
  shows "P s \<Longrightarrow> for_each body xs s = Inr s' \<Longrightarrow> P s'"
proof -
  have "set ys \<subseteq> set xs \<Longrightarrow> P s \<Longrightarrow> for_each body ys s = Inr s' \<Longrightarrow> P s'" for ys
  proof (induction ys arbitrary: s)
    case Nil
    then show ?case by simp
  next
    case (Cons y ys)
    from Cons.prems(3) obtain s1 where b: "body y s = Inr s1" and r: "for_each body ys s1 = Inr s'"
      by (cases "body y s") auto
    from Cons.prems(1) have y: "y \<in> set xs" and ys: "set ys \<subseteq> set xs" by simp_all
    from step[OF y Cons.prems(2) b] have "P s1" .
    from Cons.IH[OF ys this r] show ?case .
  qed
  from this[of xs] show "P s \<Longrightarrow> for_each body xs s = Inr s' \<Longrightarrow> P s'" by simp
qed

lemma region_annotation_body_stores:
  assumes b: "region_annotation_body E (region, label, parent) (regions, warns, t) = Inr (regions', warns', t')"
  shows "regions' = regions \<or>
         (\<exists>pts pp. attr region ''points'' = Inr pts \<and> poly_points_of E (split_ws pts) = Inr pp \<and>
            regions' = regions @ [(text_of label, pp)])"
proof (cases "get_group_transform E parent")
  case (Inl e)
  with b have "on_transform_error parent e (RegionComplexTransform (text_of label))
      (\<lambda>w. Inr (regions, warns @ [w], (0, 0))) = Inr (regions', warns', t')"
    by (simp add: region_annotation_body_def Let_def)
  from on_transform_error_Inr[OF this] show ?thesis by auto
next
  case (Inr tr)
  from b Inr obtain pts where pt: "attr region ''points'' = Inr pts"
    by (cases "attr region ''points''") (simp_all add: region_annotation_body_def Let_def)
  from b Inr pt obtain pp where pp: "poly_points_of E (split_ws pts) = Inr pp"
    by (cases "poly_points_of E (split_ws pts)") (simp_all add: region_annotation_body_def Let_def)
  from b Inr pt pp have "regions' = regions @ [(text_of label, pp)]"
    by (simp add: region_annotation_body_def Let_def)
  with pt pp show ?thesis by blast
qed

lemma path_group_body_stores:
  assumes b: "path_group_body E grp (poses, regions, warns, t0) = Inr (poses', regions', warns', t')"
  shows "regions' = regions \<or>
         (\<exists>label p d segs. find_desc path_el grp = Some p \<and> attr p ''d'' = Inr d \<and>
            parse_path E d = Inr segs \<and> list_all is_line segs \<and> length segs \<noteq> 1 \<and>
            regions' = regions @ [(text_of label, segs)])"
proof (cases "length (children grp) = 2")
  case False
  with b show ?thesis by (simp add: path_group_body_def)
next
  case two: True
  show ?thesis
  proof (cases "get_text_from_group grp")
    case None
    with b two show ?thesis by (simp add: path_group_body_def Let_def)
  next
    case l: (Some l)
    show ?thesis
    proof (cases "get_group_transform E grp")
      case (Inl e)
      with b two l have "on_transform_error grp e (PathGroupComplexTransform (text_of l))
          (\<lambda>w. Inr (poses, regions, warns @ [w], (0, 0))) = Inr (poses', regions', warns', t')"
        by (simp add: path_group_body_def Let_def)
      from on_transform_error_Inr[OF this] show ?thesis by auto
    next
      case t: (Inr tr)
      show ?thesis
      proof (cases "extract_line_from_path E (find_desc path_el grp) (Some tr)")
        case (Inr pose)
        with b two l t show ?thesis by (simp add: path_group_body_def Let_def)
      next
        case x: (Inl e)
        have e: "e = RuntimeError"
        proof (rule ccontr)
          assume "e \<noteq> RuntimeError"
          with b two l t x show False by (simp add: path_group_body_def Let_def)
        qed
        obtain p where p: "find_desc path_el grp = Some p"
          using b two l t x e by (cases "find_desc path_el grp") (simp_all add: path_group_body_def Let_def)
        obtain d where d: "attr p ''d'' = Inr d"
          using b two l t x e p by (cases "attr p ''d''") (simp_all add: path_group_body_def Let_def)
        obtain segs where g: "parse_path E d = Inr segs"
          using b two l t x e p d by (cases "parse_path E d") (simp_all add: path_group_body_def Let_def)
        show ?thesis
        proof (cases "list_all is_line segs")
          case False
          with b two l t x e p d g show ?thesis by (simp add: path_group_body_def Let_def)
        next
          case a: True
          with b two l t x e p d g have r: "regions' = regions @ [(text_of l, segs)]"
            by (simp add: path_group_body_def Let_def)
          have n1: "length segs \<noteq> 1"
          proof
            assume one: "length segs = 1"
            then obtain s where "segs = [s]" by (cases segs) auto
            with a one have "length segs = 1 \<and> is_line (segs ! 0)" by simp
            with x e p d g show False by (simp add: extract_line_from_path_def Let_def)
          qed
          from p d g a n1 r show ?thesis by blast
        qed
      qed
    qed
  qed
qed

lemma translated_vertices:
  assumes "poly_points_of E items = Inr pp"
  shows "list_all2 (\<lambda>item v. \<exists>xs ys x y. split_comma item = [xs, ys] \<and>
             float_s3 E xs = Inr x \<and> float_s3 E ys = Inr y \<and> v = (x + fst tr, y + snd tr))
           items (map (\<lambda>p. (fst p + fst tr, snd p + snd tr)) pp)"
  unfolding list_all2_map2
  by (rule list_all2_mono[OF poly_points_of_items[OF assms]]) auto

lemma process_region_annotations_vertices:
  assumes "process_region_annotations E names polygons parents = Inr (regions, warns)"
  shows "list_all (\<lambda>(name, vertices). \<exists>polygon \<in> set polygons. \<exists>pts tr.
            attr polygon ''points'' = Inr pts \<and>
            list_all2 (\<lambda>item v. \<exists>xs ys x y. split_comma item = [xs, ys] \<and>
                float_s3 E xs = Inr x \<and> float_s3 E ys = Inr y \<and> v = (x + fst tr, y + snd tr))
              (split_ws pts) vertices) regions"
proof -
  let ?stored = "\<lambda>(name :: string option, pp). \<exists>polygon \<in> set polygons. \<exists>pts.
      attr polygon ''points'' = Inr pts \<and> poly_points_of E (split_ws pts) = Inr pp"
  from assms obtain pending tr where
    f: "for_each (region_annotation_body E) (zip3 polygons names parents) ([], [], (0, 0))
          = Inr (pending, warns, tr)"
    and r: "regions = map (translated tr) pending"
    by (auto simp: process_region_annotations_def bind_err_eq_Inr)
  have "list_all ?stored (fst (pending, warns, tr))"
  proof (rule for_each_invariant_mem[where P = "\<lambda>s. list_all ?stored (fst s)"
        and body = "region_annotation_body E" and xs = "zip3 polygons names parents"
        and s = "([], [], (0, 0))"])
    show "list_all ?stored (fst ([] :: 'a region list, [] :: 'a warning list, (0 :: 'a, 0 :: 'a)))"
      by simp
    show "for_each (region_annotation_body E) (zip3 polygons names parents) ([], [], (0, 0))
          = Inr (pending, warns, tr)" by (rule f)
    show "list_all ?stored (fst s')"
      if m: "x \<in> set (zip3 polygons names parents)" and i: "list_all ?stored (fst s)"
        and b: "region_annotation_body E x s = Inr s'" for x s s'
    proof -
      obtain polygon label parent where x: "x = (polygon, label, parent)" by (cases x) auto
      obtain rs ws t where s: "s = (rs, ws, t)" by (cases s) auto
      obtain rs' ws' t' where s': "s' = (rs', ws', t')" by (cases s') auto
      from m x have pm: "polygon \<in> set polygons" by (auto simp: zip3_def dest: set_zip_leftD)
      from region_annotation_body_stores[OF b[unfolded x s s']]
      show ?thesis
      proof
        assume "rs' = rs"
        with i s s' show ?thesis by simp
      next
        assume "\<exists>pts pp. attr polygon ''points'' = Inr pts \<and>
            poly_points_of E (split_ws pts) = Inr pp \<and> rs' = rs @ [(text_of label, pp)]"
        then obtain pts pp where "attr polygon ''points'' = Inr pts"
          "poly_points_of E (split_ws pts) = Inr pp" "rs' = rs @ [(text_of label, pp)]" by blast
        with i s s' pm show ?thesis by auto
      qed
    qed
  qed
  then have st: "list_all ?stored pending" by simp
  show ?thesis
    unfolding r list_all_iff
  proof
    fix region assume "region \<in> set (map (translated tr) pending)"
    then obtain name pp where in_p: "(name, pp) \<in> set pending"
      and reg: "region = (name, map (\<lambda>p. (fst p + fst tr, snd p + snd tr)) pp)"
      by (auto simp: translated_def)
    from st in_p obtain polygon pts where pm: "polygon \<in> set polygons"
      and pt: "attr polygon ''points'' = Inr pts" and pp: "poly_points_of E (split_ws pts) = Inr pp"
      by (auto simp: list_all_iff)
    from translated_vertices[OF pp, of tr] pm pt reg
    show "case region of (name, vertices) \<Rightarrow> \<exists>polygon \<in> set polygons. \<exists>pts tr.
            attr polygon ''points'' = Inr pts \<and>
            list_all2 (\<lambda>item v. \<exists>xs ys x y. split_comma item = [xs, ys] \<and>
                float_s3 E xs = Inr x \<and> float_s3 E ys = Inr y \<and> v = (x + fst tr, y + snd tr))
              (split_ws pts) vertices"
      by auto
  qed
qed

lemma process_paths_vertices:
  assumes "process_paths E path_groups = Inr (poses, regions, warns)"
  shows "list_all (\<lambda>(name, vertices). \<exists>grp \<in> set path_groups. \<exists>p d segs tr.
            find_desc path_el grp = Some p \<and> attr p ''d'' = Inr d \<and> parse_path E d = Inr segs \<and>
            list_all is_line segs \<and> length segs \<noteq> 1 \<and>
            vertices = map (\<lambda>l. place E tr (seg_start l)) segs) regions"
proof (cases "length path_groups = 0")
  case True
  with assms show ?thesis by (simp add: process_paths_def)
next
  case False
  let ?stored = "\<lambda>(name :: string option, segs). \<exists>grp \<in> set path_groups. \<exists>p d.
      find_desc path_el grp = Some p \<and> attr p ''d'' = Inr d \<and> parse_path E d = Inr segs \<and>
      list_all is_line segs \<and> length segs \<noteq> 1"
  from assms False obtain pending tr where
    f: "for_each (path_group_body E) path_groups ([], [], [], (0, 0)) = Inr (poses, pending, warns, tr)"
    and r: "regions = map (path_region_vertices E tr) pending"
    by (auto simp: process_paths_def bind_err_eq_Inr)
  have "list_all ?stored (fst (snd (poses, pending, warns, tr)))"
  proof (rule for_each_invariant_mem[where P = "\<lambda>s. list_all ?stored (fst (snd s))"
        and body = "path_group_body E" and xs = path_groups and s = "([], [], [], (0, 0))"])
    show "list_all ?stored (fst (snd ([] :: 'a pose list, [] :: 'a path_region list,
        [] :: 'a warning list, (0 :: 'a, 0 :: 'a))))"
      by simp
    show "for_each (path_group_body E) path_groups ([], [], [], (0, 0)) = Inr (poses, pending, warns, tr)"
      by (rule f)
    show "list_all ?stored (fst (snd s'))"
      if m: "x \<in> set path_groups" and i: "list_all ?stored (fst (snd s))"
        and b: "path_group_body E x s = Inr s'" for x s s'
    proof -
      obtain ps rs ws t where s: "s = (ps, rs, ws, t)" by (cases s) auto
      obtain ps' rs' ws' t' where s': "s' = (ps', rs', ws', t')" by (cases s') auto
      from path_group_body_stores[OF b[unfolded s s']]
      show ?thesis
      proof
        assume "rs' = rs"
        with i s s' show ?thesis by simp
      next
        assume "\<exists>label p d segs. find_desc path_el x = Some p \<and> attr p ''d'' = Inr d \<and>
            parse_path E d = Inr segs \<and> list_all is_line segs \<and> length segs \<noteq> 1 \<and>
            rs' = rs @ [(text_of label, segs)]"
        then obtain label p d segs where "find_desc path_el x = Some p" "attr p ''d'' = Inr d"
          "parse_path E d = Inr segs" "list_all is_line segs" "length segs \<noteq> 1"
          "rs' = rs @ [(text_of label, segs)]" by blast
        with i s s' m show ?thesis by auto
      qed
    qed
  qed
  then have st: "list_all ?stored pending" by simp
  have "\<forall>region \<in> set (map (path_region_vertices E tr) pending).
          case region of (name, vertices) \<Rightarrow> \<exists>grp \<in> set path_groups. \<exists>p d segs tr.
            find_desc path_el grp = Some p \<and> attr p ''d'' = Inr d \<and> parse_path E d = Inr segs \<and>
            list_all is_line segs \<and> length segs \<noteq> 1 \<and>
            vertices = map (\<lambda>l. place E tr (seg_start l)) segs"
  proof
    fix region assume "region \<in> set (map (path_region_vertices E tr) pending)"
    then obtain name segs where in_p: "(name, segs) \<in> set pending"
      and reg: "region = (name, map (\<lambda>l. place E tr (seg_start l)) segs)"
      by (auto simp: path_region_vertices_def)
    from st in_p obtain grp p d where "grp \<in> set path_groups" "find_desc path_el grp = Some p"
      "attr p ''d'' = Inr d" "parse_path E d = Inr segs" "list_all is_line segs" "length segs \<noteq> 1"
      by (auto simp: list_all_iff)
    then
    show "case region of (name, vertices) \<Rightarrow> \<exists>grp \<in> set path_groups. \<exists>p d segs tr.
            find_desc path_el grp = Some p \<and> attr p ''d'' = Inr d \<and> parse_path E d = Inr segs \<and>
            list_all is_line segs \<and> length segs \<noteq> 1 \<and>
            vertices = map (\<lambda>l. place E tr (seg_start l)) segs"
      unfolding reg prod.case by blast
  qed
  then show ?thesis unfolding r by (simp only: list_all_iff)
qed

lemma load_svg_regions:
  assumes "load_svg E tree = Inr ((points, poses, regions, doors), warns)"
  shows "\<exists>names parents tagged w3 path_poses path_regions w5.
           process_region_annotations E names
             (map snd (findall_class poly_el ''region_annotation'' tree)) parents = Inr (tagged, w3) \<and>
           process_paths E (findall_groups_with path_el tree) = Inr (path_poses, path_regions, w5) \<and>
           regions = tagged @ path_regions"
  using assms by (auto simp: load_svg_def Let_def bind_err_eq_Inr) blast

text \<open>
  Claim C7, amended. Every region that \<open>load_svg\<close> returns comes from a tagged polygon
  of the document or from a path group of the document. From a polygon, it has one vertex
  for each whitespace-separated item of the \<open>points\<close> attribute, in the order of the
  items: the item's two numbers, rounded, plus a translation that is the same for all
  vertices of the region. From a path group, it has one vertex for each segment of the
  path, in the order of the segments: the start of the segment, rounded, plus a
  translation that is the same for all vertices of the region; all segments are lines, and
  there is not exactly one of them. No lower bound of 3 holds.
\<close>

theorem C7_region_vertices_follow_the_source:
  assumes "load_svg E tree = Inr ((points, poses, regions, doors), warns)"
  shows "list_all (\<lambda>(name, vertices).
      (\<exists>polygon \<in> set (map snd (findall_class poly_el ''region_annotation'' tree)). \<exists>pts tr.
          attr polygon ''points'' = Inr pts \<and>
          list_all2 (\<lambda>item v. \<exists>xs ys x y. split_comma item = [xs, ys] \<and>
              float_s3 E xs = Inr x \<and> float_s3 E ys = Inr y \<and> v = (x + fst tr, y + snd tr))
            (split_ws pts) vertices) \<or>
      (\<exists>grp \<in> set (findall_groups_with path_el tree). \<exists>p d segs tr.
          find_desc path_el grp = Some p \<and> attr p ''d'' = Inr d \<and> parse_path E d = Inr segs \<and>
          list_all is_line segs \<and> length segs \<noteq> 1 \<and>
          vertices = map (\<lambda>l. place E tr (seg_start l)) segs)) regions"
proof -
  from load_svg_regions[OF assms] obtain names parents tagged w3 path_poses path_regions w5 where
    t: "process_region_annotations E names
          (map snd (findall_class poly_el ''region_annotation'' tree)) parents = Inr (tagged, w3)"
    and q: "process_paths E (findall_groups_with path_el tree) = Inr (path_poses, path_regions, w5)"
    and r: "regions = tagged @ path_regions"
    by blast
  from process_region_annotations_vertices[OF t] process_paths_vertices[OF q]
  show ?thesis unfolding r list_all_append
    by (auto simp: list_all_iff)
qed

theorem C7_region_vertices_follow_the_source_witness:
  "load_svg exact_ext regions_doc
     = Inr (([], [], [(Some ''kitchen'', [(5, 5), (15, 5), (15, 15), (5, 15)]),
                      (Some ''room'', [(2, 3), (12, 3), (12, 13)])], []), []) \<and>
   list_all (\<lambda>(name, vertices).
      (\<exists>polygon \<in> set (map snd (findall_class poly_el ''region_annotation'' regions_doc)). \<exists>pts tr.
          attr polygon ''points'' = Inr pts \<and>
          list_all2 (\<lambda>item v. \<exists>xs ys x y. split_comma item = [xs, ys] \<and>
              float_s3 exact_ext xs = Inr x \<and> float_s3 exact_ext ys = Inr y \<and>
              v = (x + fst tr, y + snd tr))
            (split_ws pts) vertices) \<or>
      (\<exists>grp \<in> set (findall_groups_with path_el regions_doc). \<exists>p d segs tr.
          find_desc path_el grp = Some p \<and> attr p ''d'' = Inr d \<and>
          parse_path exact_ext d = Inr segs \<and> list_all is_line segs \<and> length segs \<noteq> 1 \<and>
          vertices = map (\<lambda>l. place exact_ext tr (seg_start l)) segs))
     [(Some ''kitchen'', [(5, 5), (15, 5), (15, 15), (5, 15)]),
      (Some ''room'', [(2, 3), (12, 3), (12, 13)])]"
proof -
  have l: "load_svg exact_ext regions_doc
     = Inr (([], [], [(Some ''kitchen'', [(5, 5), (15, 5), (15, 15), (5, 15)]),
                      (Some ''room'', [(2, 3), (12, 3), (12, 13)])], []), [])"
    by code_simp
  show ?thesis by (rule conjI[OF l C7_region_vertices_follow_the_source[OF l]])
qed

text \<open>The claim as stated fails on a polygon with two points: its region has two vertices.\<close>

theorem C7_two_vertex_region_counterexample:
  "load_svg exact_ext two_vertex_polygon_doc
     = Inr (([], [], [(Some ''wall'', [(0, 0), (10, 0)])], []), []) \<and>
   length [(0 :: rat, 0 :: rat), (10, 0)] < 3"
  by code_simp

text \<open>
  The translation of a region is the one that the loop has assigned last: of two tagged
  polygons, the first in a group moved by \<open>(5, 5)\<close> and the second in a group that is not
  moved, neither is moved.
\<close>

lemma region_translation_is_the_last_one:
  "load_svg exact_ext two_polygons_doc
     = Inr (([], [], [(Some ''a'', [(0, 0), (10, 0), (10, 10)]),
                      (Some ''b'', [(0, 0), (10, 0), (10, 10)])], []), [])"
  by code_simp

subsection \<open>Annotations of the annotation tool\<close>

text \<open>
  Each triple of a loop over tagged shapes pairs a shape of the document with the element
  that immediately encloses it.
\<close>

lemma parents_of_Inr:
  "parents_of tree anns = Inr ps \<Longrightarrow> list_all2 (\<lambda>a p. parent_map tree (fst a) = Some p) anns ps"
proof (induction anns arbitrary: ps)
  case Nil
  then show ?case by simp
next
  case (Cons a anns)
  from Cons.prems obtain p where p: "parent_map tree (fst a) = Some p"
    by (cases "parent_map tree (fst a)") simp_all
  from Cons.prems p obtain ps' where r: "parents_of tree anns = Inr ps'" and e: "ps = p # ps'"
    by (cases "parents_of tree anns") auto
  from Cons.IH[OF r] p e show ?case by simp
qed

lemma annotation_triples_parent:
  assumes "(shape, label, parent) \<in> set (annotation_triples tree tg cls)"
  shows "\<exists>pos. (pos, shape) \<in> set (findall_class tg cls tree) \<and> parent_map tree pos = Some parent"
proof (cases "parents_of tree (findall_class tg cls tree)")
  case (Inl e)
  with assms show ?thesis by (simp add: annotation_triples_def)
next
  case (Inr ps)
  let ?anns = "findall_class tg cls tree"
  from assms Inr have "(shape, parent) \<in> set (zip (map snd ?anns) ps)"
    by (auto simp: annotation_triples_def zip3_def in_set_zip)
  then obtain i where i: "i < length ?anns" "i < length ps" and s: "shape = snd (?anns ! i)"
    and q: "parent = ps ! i"
    by (auto simp: in_set_zip)
  from parents_of_Inr[OF Inr] i have "parent_map tree (fst (?anns ! i)) = Some (ps ! i)"
    by (simp add: list_all2_conv_all_nth)
  moreover from i s have "(fst (?anns ! i), shape) \<in> set ?anns" by simp
  ultimately show ?thesis using q by blast
qed

















text \<open>The triples of the document of the example: each shape with its own group.\<close>

lemma tagged_shapes_doc_triples:
  "annotation_triples tagged_shapes_doc circle_el ''circle_annotation''
     = [(charger_circle, charger_label, charger_group)] \<and>
   annotation_triples tagged_shapes_doc line_el ''pose_line_annotation''
     = [(entry_line, Element text_el [] (Some ''entry'') [],
         Element group_el [(''transform'', ''translate(1,2)'')] None
           [entry_line, Element text_el [] (Some ''entry'') []])] \<and>
   annotation_triples tagged_shapes_doc poly_el ''region_annotation''
     = [(kitchen_polygon, kitchen_label,
         Element group_el [(''transform'', ''translate(5,5)'')] None [kitchen_polygon, kitchen_label])]"
  by code_simp


end
